theory Spec2Isabelle
  imports Main "HOL-Library.Word"
begin

unbundle bit_operations_syntax

section \<open>Data model\<close>

text \<open>
  Python \<open>bytes\<close> are lists of 8-bit words. Header values (\<open>Dict[int, Any]\<close>) and
  the envelope's \<open>List[Any]\<close> are values of a CBOR-like datatype; \<open>CBORTag\<close> is
  cbor2's tagged value, with the tag number and the tagged value.
\<close>

type_synonym byte = "8 word"
type_synonym bytes = "byte list"

datatype cbor =
    CInt int
  | CBytes bytes
  | CText string
  | CArray "cbor list"
  | CMap "(cbor \<times> cbor) list"
  | CBORTag nat cbor

type_synonym header = "int \<rightharpoonup> cbor"

text \<open>
  Exceptions are values: the class, the message and the \<open>__cause__\<close> that
  \<open>raise ... from err\<close> attaches. \<open>ValueError\<close> is what the specification calls
  \<open>InvalidArgument\<close>. \<open>OtherError\<close> stands for every other subclass of
  \<open>Exception\<close> a collaborator may raise.
\<close>

datatype exn_class =
    ValueError
  | NotImplementedError
  | EncodeError
  | DecodeError
  | VerifyError
  | InvalidUnwrap
  | AttributeError
  | OtherError

datatype exn = Exn exn_class string "exn option"

fun exn_cls :: "exn \<Rightarrow> exn_class" where
  "exn_cls (Exn c m e) = c"

text \<open>
  The typed key (\<open>COSEKeyInterface\<close>, not part of the sources at hand): key type,
  algorithm id, optional key id, raw key bytes and key operations. Its two methods
  used here take no argument, so the outcome of calling each is a field:
  \<open>generate_nonce()\<close> returns bytes or raises, \<open>to_dict()\<close> returns the
  attribute mapping or raises.
\<close>

record cose_key =
  kty :: int
  alg :: int
  kid :: "bytes option"
  key :: bytes
  key_ops :: "int list"
  generate_nonce :: "exn + bytes"
  to_dict :: "exn + cbor"

text \<open>
  The recipient structure: the instance attributes \<open>self._protected\<close>,
  \<open>self._unprotected\<close>, \<open>self._ciphertext\<close>, \<open>self._recipients\<close>,
  \<open>self._key_ops\<close>, \<open>self._key\<close>, \<open>self._alg\<close> and \<open>self._kid\<close>.
\<close>

record recipient =
  self_protected :: header
  self_unprotected :: header
  self_ciphertext :: bytes
  self_recipients :: "cbor list"
  self_key_ops :: "int list"
  self_key :: bytes
  self_alg :: int
  self_kid :: "bytes option"

section \<open>Formatting integers\<close>

text \<open>Python's \<open>str\<close> of an integer, as the f-strings of the messages use it.\<close>

definition digit :: "nat \<Rightarrow> char" where
  "digit d = ''0123456789'' ! d"

fun str_nat :: "nat \<Rightarrow> string" where
  "str_nat n =
     (if n < 10 then [digit n]
      else str_nat (n div 10) @ [digit (n mod 10)])"

definition str_int :: "int \<Rightarrow> string" where
  "str_int i = (if i < 0 then CHR ''-'' # str_nat (nat (- i)) else str_nat (nat i))"

section \<open>The recipient base class\<close>

text \<open>
  Modelled from the spec: \<open>RecipientInterface.__init__\<close>, the base constructor
  that \<open>AESKeyWrap.__init__\<close> calls first, is not among the sources. The
  specification (4.1) says it is constructed from
  \<open>(protected, unprotected, ciphertext, nested_recipients, key_ops, key_bytes)\<close>,
  extracts and stores the algorithm id from \<open>protected[1]\<close>, fails with
  \<open>InvalidArgument\<close> if it is absent, and exposes \<open>kid\<close> from the unprotected
  key-id label (4). An algorithm id is an integer and a key id is a byte string: a
  label holding another kind of value carries none. The message is the one the
  repository's tests expect of the base class.
\<close>

definition RecipientInterface_init ::
  "header \<Rightarrow> header \<Rightarrow> bytes \<Rightarrow> cbor list \<Rightarrow> int list \<Rightarrow> bytes \<Rightarrow> exn + recipient" where
  "RecipientInterface_init protected unprotected ciphertext recipients ops k =
     (case protected 1 of
        Some (CInt a) \<Rightarrow>
          Inr \<lparr> self_protected = protected,
                self_unprotected = unprotected,
                self_ciphertext = ciphertext,
                self_recipients = recipients,
                self_key_ops = ops,
                self_key = k,
                self_alg = a,
                self_kid = (case unprotected 4 of Some (CBytes b) \<Rightarrow> Some b | _ \<Rightarrow> None) \<rparr>
      | _ \<Rightarrow> Inl (Exn ValueError ''alg(1) not found.'' None))"

section \<open>AESKeyWrap\<close>

text \<open>
  \<open>AESKeyWrap.__init__\<close>: the base constructor, then the check of the algorithm id
  and of the key length. \<open>self._key and len(self._key) != 16\<close> is Python
  truthiness: the length is compared only when the key is not empty.
\<close>

definition invalid_key_length :: "bytes \<Rightarrow> exn" where
  "invalid_key_length k =
     Exn ValueError (''Invalid key length: '' @ str_nat (length k) @ ''.'') None"

definition unknown_alg :: "int \<Rightarrow> exn" where
  "unknown_alg a =
     Exn ValueError (''Unknown alg(3) for AES key wrap: '' @ str_int a @ ''.'') None"

definition AESKeyWrap_init ::
  "header \<Rightarrow> header \<Rightarrow> bytes \<Rightarrow> cbor list \<Rightarrow> int list \<Rightarrow> bytes \<Rightarrow> exn + recipient" where
  "AESKeyWrap_init protected unprotected ciphertext recipients ops k =
     (case RecipientInterface_init protected unprotected ciphertext recipients ops k of
        Inl e \<Rightarrow> Inl e
      | Inr self \<Rightarrow>
          if self_alg self = - 3 then
            (if self_key self \<noteq> [] \<and> length (self_key self) \<noteq> 16
             then Inl (invalid_key_length (self_key self)) else Inr self)
          else if self_alg self = - 4 then
            (if self_key self \<noteq> [] \<and> length (self_key self) \<noteq> 24
             then Inl (invalid_key_length (self_key self)) else Inr self)
          else if self_alg self = - 5 then
            (if self_key self \<noteq> [] \<and> length (self_key self) \<noteq> 32
             then Inl (invalid_key_length (self_key self)) else Inr self)
          else Inl (unknown_alg (self_alg self)))"

text \<open>
  \<open>aes_key_wrap\<close> and \<open>aes_key_unwrap\<close> are the primitives of the
  \<open>cryptography\<close> library and \<open>COSEKey.from_symmetric_key\<close> is the key factory
  of the repository, not among the sources: \<open>encode_key\<close> and \<open>decode_key\<close>
  take them as parameters, each returning its result or the exception it raises. The
  arguments \<open>recipient_key\<close>, \<open>alg\<close> and \<open>context\<close> of \<open>encode_key\<close> and
  \<open>context\<close> of \<open>decode_key\<close> are never read and are left out.

  \<open>encode_key\<close> assigns \<open>self._ciphertext\<close>, so it returns the recipient structure
  after the call beside its outcome; when the primitive raises, the assignment has not
  happened. \<open>not key\<close> on an optional key object is \<open>key is None\<close>.
\<close>

definition encode_key ::
  "(bytes \<Rightarrow> bytes \<Rightarrow> exn + bytes) \<Rightarrow> recipient \<Rightarrow> cose_key option
     \<Rightarrow> (exn + cose_key) \<times> recipient" where
  "encode_key wrap self k =
     (case k of
        None \<Rightarrow> (Inl (Exn ValueError ''key should be set.'' None), self)
      | Some k' \<Rightarrow>
          (case wrap (self_key self) (key k') of
             Inl err \<Rightarrow> (Inl (Exn EncodeError ''Failed to wrap key.'' (Some err)), self)
           | Inr c \<Rightarrow> (Inr k', self\<lparr>self_ciphertext := c\<rparr>)))"

text \<open>
  \<open>decode_key\<close>: \<open>not alg\<close> on an \<open>Optional[int]\<close> holds for \<open>None\<close> and for
  \<open>0\<close>. The unwrapping key is \<open>key.key\<close>, the raw bytes of the key argument.
  Both calls stand inside the \<open>try\<close>, so a failure of either is re-raised as
  \<open>DecodeError\<close>.
\<close>

definition decode_key ::
  "(bytes \<Rightarrow> bytes \<Rightarrow> exn + bytes) \<Rightarrow> (bytes \<Rightarrow> int \<Rightarrow> bytes option \<Rightarrow> exn + cose_key)
     \<Rightarrow> recipient \<Rightarrow> cose_key \<Rightarrow> int option \<Rightarrow> exn + cose_key" where
  "decode_key unwrap from_symmetric_key self k a =
     (case a of
        None \<Rightarrow> Inl (Exn ValueError ''alg should be set.'' None)
      | Some a' \<Rightarrow>
          if a' = 0 then Inl (Exn ValueError ''alg should be set.'' None)
          else
            (case unwrap (key k) (self_ciphertext self) of
               Inl err \<Rightarrow> Inl (Exn DecodeError ''Failed to decode key.'' (Some err))
             | Inr unwrapped \<Rightarrow>
                 (case from_symmetric_key unwrapped a' (self_kid self) of
                    Inl err \<Rightarrow> Inl (Exn DecodeError ''Failed to decode key.'' (Some err))
                  | Inr r \<Rightarrow> Inr r)))"

section \<open>EncryptedCOSEKey\<close>

text \<open>
  The object holds its collaborators: the COSE engine (\<open>self._cose\<close>) with its
  methods \<open>decode\<close> and \<open>encode_and_encrypt\<close>, the key builder
  (\<open>self._key_builder\<close>) with \<open>from_dict\<close>, and the inherited
  \<open>CBORProcessor\<close> methods \<open>_loads\<close> and \<open>_dumps\<close>. None of them is among the
  sources; each is a field holding a function that returns its result or the
  exception it raises.
\<close>

record COSE =
  cose_decode :: "cbor \<Rightarrow> cose_key \<Rightarrow> exn + bytes"
  encode_and_encrypt ::
    "bytes \<Rightarrow> cose_key \<Rightarrow> header \<Rightarrow> header \<Rightarrow> bytes \<Rightarrow> string \<Rightarrow> exn + cbor"

record KeyBuilder =
  from_dict :: "cbor \<Rightarrow> exn + cose_key"

record EncryptedCOSEKey =
  self_options :: "cbor option"
  self_cose :: COSE
  self_key_builder :: KeyBuilder
  loads :: "bytes \<Rightarrow> exn + cbor"
  dumps :: "cbor \<Rightarrow> exn + bytes"

text \<open>\<open>EncryptedCOSEKey.decode\<close>: no \<open>try\<close>, so every exception propagates as it is.\<close>

definition decode :: "EncryptedCOSEKey \<Rightarrow> cbor list \<Rightarrow> cose_key \<Rightarrow> exn + cose_key" where
  "decode self k encryption_key =
     (case cose_decode (self_cose self) (CBORTag 16 (CArray k)) encryption_key of
        Inl e \<Rightarrow> Inl e
      | Inr plaintext \<Rightarrow>
          (case loads self plaintext of
             Inl e \<Rightarrow> Inl e
           | Inr res \<Rightarrow> from_dict (self_key_builder self) res))"

text \<open>
  \<open>EncryptedCOSEKey.encode\<close>. \<open>encryption_key.kid\<close> is tested for truthiness
  (neither \<open>None\<close> nor empty). Only \<open>NotImplementedError\<close> is caught around
  \<open>generate_nonce()\<close>; the \<open>ValueError\<close> raised in its place has no
  \<open>__cause__\<close>. \<open>res.value\<close> on a result that is not a \<open>CBORTag\<close> raises
  \<open>AttributeError\<close>. The argument \<open>tagged\<close> is never read.
\<close>

definition no_nonce_generation :: exn where
  "no_nonce_generation =
     Exn ValueError
       ''Nonce generation is not supported for the key. Set a nonce explicitly.'' None"

definition tag_value :: "cbor \<Rightarrow> exn + cbor" where
  "tag_value res =
     (case res of
        CBORTag t v \<Rightarrow> Inr v
      | _ \<Rightarrow> Inl (Exn AttributeError ''object has no attribute value'' None))"

definition encode ::
  "EncryptedCOSEKey \<Rightarrow> cose_key \<Rightarrow> cose_key \<Rightarrow> bytes \<Rightarrow> bool \<Rightarrow> exn + cbor" where
  "encode self k encryption_key nonce tagged =
     (let protected = [1 \<mapsto> CInt (alg encryption_key)];
          unprotected =
            (case kid encryption_key of
               None \<Rightarrow> Map.empty
             | Some i \<Rightarrow> if i \<noteq> [] then [4 \<mapsto> CBytes i] else Map.empty)
      in
        (case (if nonce = [] then
                 (case generate_nonce encryption_key of
                    Inl e \<Rightarrow>
                      if exn_cls e = NotImplementedError then Inl no_nonce_generation
                      else Inl e
                  | Inr n \<Rightarrow> Inr n)
               else Inr nonce) of
           Inl e \<Rightarrow> Inl e
         | Inr nonce' \<Rightarrow>
             (let unprotected' = unprotected(5 \<mapsto> CBytes nonce') in
                (case to_dict k of
                   Inl e \<Rightarrow> Inl e
                 | Inr d \<Rightarrow>
                     (case dumps self d of
                        Inl e \<Rightarrow> Inl e
                      | Inr b_payload \<Rightarrow>
                          (case encode_and_encrypt (self_cose self) b_payload encryption_key
                                  protected unprotected' nonce' ''cbor2/CBORTag'' of
                             Inl e \<Rightarrow> Inl e
                           | Inr res \<Rightarrow> tag_value res))))))"

section \<open>The key-wrap primitives\<close>

text \<open>
  \<open>aes_key_wrap\<close> and \<open>aes_key_unwrap\<close> of the \<open>cryptography\<close> library,
  which the recipient calls, are the key wrap of RFC 3394 (index method) over AES in
  ECB mode on single blocks. The block cipher follows FIPS 197: the state is the list
  of its 16 bytes, column by column.
\<close>

subsection \<open>AES\<close>

definition sbox_table :: "byte list" where
  "sbox_table =
     [
      0x63, 0x7C, 0x77, 0x7B, 0xF2, 0x6B, 0x6F, 0xC5, 0x30, 0x01, 0x67, 0x2B, 0xFE, 0xD7, 0xAB, 0x76,
      0xCA, 0x82, 0xC9, 0x7D, 0xFA, 0x59, 0x47, 0xF0, 0xAD, 0xD4, 0xA2, 0xAF, 0x9C, 0xA4, 0x72, 0xC0,
      0xB7, 0xFD, 0x93, 0x26, 0x36, 0x3F, 0xF7, 0xCC, 0x34, 0xA5, 0xE5, 0xF1, 0x71, 0xD8, 0x31, 0x15,
      0x04, 0xC7, 0x23, 0xC3, 0x18, 0x96, 0x05, 0x9A, 0x07, 0x12, 0x80, 0xE2, 0xEB, 0x27, 0xB2, 0x75,
      0x09, 0x83, 0x2C, 0x1A, 0x1B, 0x6E, 0x5A, 0xA0, 0x52, 0x3B, 0xD6, 0xB3, 0x29, 0xE3, 0x2F, 0x84,
      0x53, 0xD1, 0x00, 0xED, 0x20, 0xFC, 0xB1, 0x5B, 0x6A, 0xCB, 0xBE, 0x39, 0x4A, 0x4C, 0x58, 0xCF,
      0xD0, 0xEF, 0xAA, 0xFB, 0x43, 0x4D, 0x33, 0x85, 0x45, 0xF9, 0x02, 0x7F, 0x50, 0x3C, 0x9F, 0xA8,
      0x51, 0xA3, 0x40, 0x8F, 0x92, 0x9D, 0x38, 0xF5, 0xBC, 0xB6, 0xDA, 0x21, 0x10, 0xFF, 0xF3, 0xD2,
      0xCD, 0x0C, 0x13, 0xEC, 0x5F, 0x97, 0x44, 0x17, 0xC4, 0xA7, 0x7E, 0x3D, 0x64, 0x5D, 0x19, 0x73,
      0x60, 0x81, 0x4F, 0xDC, 0x22, 0x2A, 0x90, 0x88, 0x46, 0xEE, 0xB8, 0x14, 0xDE, 0x5E, 0x0B, 0xDB,
      0xE0, 0x32, 0x3A, 0x0A, 0x49, 0x06, 0x24, 0x5C, 0xC2, 0xD3, 0xAC, 0x62, 0x91, 0x95, 0xE4, 0x79,
      0xE7, 0xC8, 0x37, 0x6D, 0x8D, 0xD5, 0x4E, 0xA9, 0x6C, 0x56, 0xF4, 0xEA, 0x65, 0x7A, 0xAE, 0x08,
      0xBA, 0x78, 0x25, 0x2E, 0x1C, 0xA6, 0xB4, 0xC6, 0xE8, 0xDD, 0x74, 0x1F, 0x4B, 0xBD, 0x8B, 0x8A,
      0x70, 0x3E, 0xB5, 0x66, 0x48, 0x03, 0xF6, 0x0E, 0x61, 0x35, 0x57, 0xB9, 0x86, 0xC1, 0x1D, 0x9E,
      0xE1, 0xF8, 0x98, 0x11, 0x69, 0xD9, 0x8E, 0x94, 0x9B, 0x1E, 0x87, 0xE9, 0xCE, 0x55, 0x28, 0xDF,
      0x8C, 0xA1, 0x89, 0x0D, 0xBF, 0xE6, 0x42, 0x68, 0x41, 0x99, 0x2D, 0x0F, 0xB0, 0x54, 0xBB, 0x16]"

definition inv_sbox_table :: "byte list" where
  "inv_sbox_table =
     [
      0x52, 0x09, 0x6A, 0xD5, 0x30, 0x36, 0xA5, 0x38, 0xBF, 0x40, 0xA3, 0x9E, 0x81, 0xF3, 0xD7, 0xFB,
      0x7C, 0xE3, 0x39, 0x82, 0x9B, 0x2F, 0xFF, 0x87, 0x34, 0x8E, 0x43, 0x44, 0xC4, 0xDE, 0xE9, 0xCB,
      0x54, 0x7B, 0x94, 0x32, 0xA6, 0xC2, 0x23, 0x3D, 0xEE, 0x4C, 0x95, 0x0B, 0x42, 0xFA, 0xC3, 0x4E,
      0x08, 0x2E, 0xA1, 0x66, 0x28, 0xD9, 0x24, 0xB2, 0x76, 0x5B, 0xA2, 0x49, 0x6D, 0x8B, 0xD1, 0x25,
      0x72, 0xF8, 0xF6, 0x64, 0x86, 0x68, 0x98, 0x16, 0xD4, 0xA4, 0x5C, 0xCC, 0x5D, 0x65, 0xB6, 0x92,
      0x6C, 0x70, 0x48, 0x50, 0xFD, 0xED, 0xB9, 0xDA, 0x5E, 0x15, 0x46, 0x57, 0xA7, 0x8D, 0x9D, 0x84,
      0x90, 0xD8, 0xAB, 0x00, 0x8C, 0xBC, 0xD3, 0x0A, 0xF7, 0xE4, 0x58, 0x05, 0xB8, 0xB3, 0x45, 0x06,
      0xD0, 0x2C, 0x1E, 0x8F, 0xCA, 0x3F, 0x0F, 0x02, 0xC1, 0xAF, 0xBD, 0x03, 0x01, 0x13, 0x8A, 0x6B,
      0x3A, 0x91, 0x11, 0x41, 0x4F, 0x67, 0xDC, 0xEA, 0x97, 0xF2, 0xCF, 0xCE, 0xF0, 0xB4, 0xE6, 0x73,
      0x96, 0xAC, 0x74, 0x22, 0xE7, 0xAD, 0x35, 0x85, 0xE2, 0xF9, 0x37, 0xE8, 0x1C, 0x75, 0xDF, 0x6E,
      0x47, 0xF1, 0x1A, 0x71, 0x1D, 0x29, 0xC5, 0x89, 0x6F, 0xB7, 0x62, 0x0E, 0xAA, 0x18, 0xBE, 0x1B,
      0xFC, 0x56, 0x3E, 0x4B, 0xC6, 0xD2, 0x79, 0x20, 0x9A, 0xDB, 0xC0, 0xFE, 0x78, 0xCD, 0x5A, 0xF4,
      0x1F, 0xDD, 0xA8, 0x33, 0x88, 0x07, 0xC7, 0x31, 0xB1, 0x12, 0x10, 0x59, 0x27, 0x80, 0xEC, 0x5F,
      0x60, 0x51, 0x7F, 0xA9, 0x19, 0xB5, 0x4A, 0x0D, 0x2D, 0xE5, 0x7A, 0x9F, 0x93, 0xC9, 0x9C, 0xEF,
      0xA0, 0xE0, 0x3B, 0x4D, 0xAE, 0x2A, 0xF5, 0xB0, 0xC8, 0xEB, 0xBB, 0x3C, 0x83, 0x53, 0x99, 0x61,
      0x17, 0x2B, 0x04, 0x7E, 0xBA, 0x77, 0xD6, 0x26, 0xE1, 0x69, 0x14, 0x63, 0x55, 0x21, 0x0C, 0x7D]"

definition sbox :: "byte \<Rightarrow> byte" where
  "sbox b = sbox_table ! unat b"

definition inv_sbox :: "byte \<Rightarrow> byte" where
  "inv_sbox b = inv_sbox_table ! unat b"

definition xtime :: "byte \<Rightarrow> byte" where
  "xtime b = (if bit b 7 then push_bit 1 b XOR 0x1B else push_bit 1 b)"

definition sub_bytes :: "bytes \<Rightarrow> bytes" where
  "sub_bytes s = map sbox s"

definition inv_sub_bytes :: "bytes \<Rightarrow> bytes" where
  "inv_sub_bytes s = map inv_sbox s"

definition shift_rows :: "bytes \<Rightarrow> bytes" where
  "shift_rows s = map (\<lambda>i. s ! i) [0, 5, 10, 15, 4, 9, 14, 3, 8, 13, 2, 7, 12, 1, 6, 11]"

definition inv_shift_rows :: "bytes \<Rightarrow> bytes" where
  "inv_shift_rows s = map (\<lambda>i. s ! i) [0, 13, 10, 7, 4, 1, 14, 11, 8, 5, 2, 15, 12, 9, 6, 3]"

definition mul2 :: "byte \<Rightarrow> byte" where "mul2 b = xtime b"
definition mul3 :: "byte \<Rightarrow> byte" where "mul3 b = xtime b XOR b"
definition mul9 :: "byte \<Rightarrow> byte" where "mul9 b = xtime (xtime (xtime b)) XOR b"
definition mul11 :: "byte \<Rightarrow> byte" where "mul11 b = xtime (xtime (xtime b)) XOR xtime b XOR b"
definition mul13 :: "byte \<Rightarrow> byte" where "mul13 b = xtime (xtime (xtime b)) XOR xtime (xtime b) XOR b"
definition mul14 :: "byte \<Rightarrow> byte" where "mul14 b = xtime (xtime (xtime b)) XOR xtime (xtime b) XOR xtime b"

fun mix_columns :: "bytes \<Rightarrow> bytes" where
  "mix_columns (a # b # c # d # s) =
     (mul2 a XOR mul3 b XOR c XOR d) #
     (a XOR mul2 b XOR mul3 c XOR d) #
     (a XOR b XOR mul2 c XOR mul3 d) #
     (mul3 a XOR b XOR c XOR mul2 d) # mix_columns s"
| "mix_columns s = []"

fun inv_mix_columns :: "bytes \<Rightarrow> bytes" where
  "inv_mix_columns (a # b # c # d # s) =
     (mul14 a XOR mul11 b XOR mul13 c XOR mul9 d) #
     (mul9 a XOR mul14 b XOR mul11 c XOR mul13 d) #
     (mul13 a XOR mul9 b XOR mul14 c XOR mul11 d) #
     (mul11 a XOR mul13 b XOR mul9 c XOR mul14 d) # inv_mix_columns s"
| "inv_mix_columns s = []"

definition add_round_key :: "bytes \<Rightarrow> bytes \<Rightarrow> bytes" where
  "add_round_key rk s = map2 (XOR) s rk"

definition rcon :: "nat \<Rightarrow> byte" where
  "rcon i = (xtime ^^ (i - 1)) 1"

definition rot_word :: "bytes \<Rightarrow> bytes" where
  "rot_word w = tl w @ [hd w]"

definition expand_word :: "nat \<Rightarrow> bytes \<Rightarrow> nat \<Rightarrow> bytes" where
  "expand_word nk w i =
     (let temp = take 4 (drop (4 * (i - 1)) w);
          temp' =
            (if i mod nk = 0 then
               map2 (XOR) (map sbox (rot_word temp)) [rcon (i div nk), 0, 0, 0]
             else if 6 < nk \<and> i mod nk = 4 then map sbox temp
             else temp)
      in map2 (XOR) (take 4 (drop (4 * (i - nk)) w)) temp')"

definition key_expansion :: "bytes \<Rightarrow> bytes" where
  "key_expansion k =
     (let nk = length k div 4
      in fold (\<lambda>i w. w @ expand_word nk w i) [nk ..< 4 * (nk + 7)] k)"

definition round_keys :: "bytes \<Rightarrow> bytes list" where
  "round_keys k =
     (let w = key_expansion k
      in map (\<lambda>r. take 16 (drop (16 * r) w)) [0 ..< length k div 4 + 7])"

definition aes_round :: "bytes \<Rightarrow> bytes \<Rightarrow> bytes" where
  "aes_round rk s = add_round_key rk (mix_columns (shift_rows (sub_bytes s)))"

definition inv_aes_round :: "bytes \<Rightarrow> bytes \<Rightarrow> bytes" where
  "inv_aes_round rk s = inv_sub_bytes (inv_shift_rows (inv_mix_columns (add_round_key rk s)))"

definition cipher :: "bytes list \<Rightarrow> bytes \<Rightarrow> bytes" where
  "cipher rks b =
     add_round_key (last rks)
       (shift_rows (sub_bytes
          (fold aes_round (butlast (tl rks)) (add_round_key (hd rks) b))))"

definition inv_cipher :: "bytes list \<Rightarrow> bytes \<Rightarrow> bytes" where
  "inv_cipher rks c =
     add_round_key (hd rks)
       (fold inv_aes_round (rev (butlast (tl rks)))
          (inv_sub_bytes (inv_shift_rows (add_round_key (last rks) c))))"

definition aes_ecb_encrypt :: "bytes \<Rightarrow> bytes \<Rightarrow> bytes" where
  "aes_ecb_encrypt k b = cipher (round_keys k) b"

definition aes_ecb_decrypt :: "bytes \<Rightarrow> bytes \<Rightarrow> bytes" where
  "aes_ecb_decrypt k c = inv_cipher (round_keys k) c"

subsection \<open>RFC 3394 key wrap\<close>

text \<open>
  \<open>struct.unpack(">Q", b)[0]\<close> and \<open>struct.pack(">Q", n)\<close>: eight bytes, big
  endian, to and from a 64-bit unsigned integer. The counter \<open>n * j + i + 1\<close> that is
  XORed in stays far below \<open>2 ^ 64\<close> (a \<open>bytes\<close> object has fewer than
  \<open>2 ^ 63\<close> bytes), so \<open>pack\<close> never overflows.
\<close>

definition unpack_Q :: "bytes \<Rightarrow> 64 word" where
  "unpack_Q bs = foldl (\<lambda>w b. push_bit 8 w OR ucast b) 0 bs"

definition pack_Q :: "64 word \<Rightarrow> bytes" where
  "pack_Q w = map (\<lambda>k. ucast (drop_bit (8 * k) w)) [7, 6, 5, 4, 3, 2, 1, 0]"

text \<open>\<open>[bs[i : i + 8] for i in range(0, len(bs), 8)]\<close>\<close>

fun split8 :: "bytes \<Rightarrow> bytes list" where
  "split8 bs = (if bs = [] then [] else take 8 bs # split8 (drop 8 bs))"

definition aiv :: bytes where
  "aiv = replicate 8 0xA6"

text \<open>
  One pass of the inner loop body of \<open>_wrap_core\<close> and of \<open>_unwrap_core\<close>, at the
  indices \<open>(j, i)\<close>, on the register \<open>a\<close> and the list \<open>r\<close>; \<open>b[:8]\<close> is
  \<open>take 8 b\<close> and \<open>b[-8:]\<close> is \<open>drop (length b - 8) b\<close>.
\<close>

definition wrap_step :: "bytes \<Rightarrow> nat \<Rightarrow> nat \<times> nat \<Rightarrow> bytes \<times> bytes list \<Rightarrow> bytes \<times> bytes list" where
  "wrap_step wrapping_key n ji ar =
     (case ji of (j, i) \<Rightarrow>
        (case ar of (a, r) \<Rightarrow>
           (let b = aes_ecb_encrypt wrapping_key (a @ r ! i)
            in (pack_Q (unpack_Q (take 8 b) XOR of_nat (n * j + i + 1)),
                r[i := drop (length b - 8) b]))))"

definition unwrap_step :: "bytes \<Rightarrow> nat \<Rightarrow> nat \<times> nat \<Rightarrow> bytes \<times> bytes list \<Rightarrow> bytes \<times> bytes list" where
  "unwrap_step wrapping_key n ji ar =
     (case ji of (j, i) \<Rightarrow>
        (case ar of (a, r) \<Rightarrow>
           (let atr = pack_Q (unpack_Q a XOR of_nat (n * j + i + 1)) @ r ! i;
                b = aes_ecb_decrypt wrapping_key atr
            in (take 8 b, r[i := drop (length b - 8) b]))))"

text \<open>
  The loops \<open>for j in range(6): for i in range(n)\<close>, and the same ranges reversed
  for unwrapping.
\<close>

definition wrap_core :: "bytes \<Rightarrow> bytes \<Rightarrow> bytes list \<Rightarrow> bytes" where
  "wrap_core wrapping_key a r =
     (case fold (wrap_step wrapping_key (length r))
             (List.product [0 ..< 6] [0 ..< length r]) (a, r) of
        (a', r') \<Rightarrow> a' @ concat r')"

definition unwrap_core :: "bytes \<Rightarrow> bytes \<Rightarrow> bytes list \<Rightarrow> bytes \<times> bytes list" where
  "unwrap_core wrapping_key a r =
     fold (unwrap_step wrapping_key (length r))
       (rev (List.product [0 ..< 6] [0 ..< length r])) (a, r)"

definition aes_key_wrap :: "bytes \<Rightarrow> bytes \<Rightarrow> exn + bytes" where
  "aes_key_wrap wrapping_key key_to_wrap =
     (if length wrapping_key \<notin> {16, 24, 32} then
        Inl (Exn ValueError ''The wrapping key must be a valid AES key length'' None)
      else if length key_to_wrap < 16 then
        Inl (Exn ValueError ''The key to wrap must be at least 16 bytes'' None)
      else if length key_to_wrap mod 8 \<noteq> 0 then
        Inl (Exn ValueError ''The key to wrap must be a multiple of 8 bytes'' None)
      else Inr (wrap_core wrapping_key aiv (split8 key_to_wrap)))"

definition aes_key_unwrap :: "bytes \<Rightarrow> bytes \<Rightarrow> exn + bytes" where
  "aes_key_unwrap wrapping_key wrapped_key =
     (if length wrapped_key < 24 then
        Inl (Exn InvalidUnwrap ''Must be at least 24 bytes'' None)
      else if length wrapped_key mod 8 \<noteq> 0 then
        Inl (Exn InvalidUnwrap ''The wrapped key must be a multiple of 8 bytes'' None)
      else if length wrapping_key \<notin> {16, 24, 32} then
        Inl (Exn ValueError ''The wrapping key must be a valid AES key length'' None)
      else
        (case split8 wrapped_key of
           [] \<Rightarrow> Inl (Exn OtherError ''pop from empty list'' None)
         | a # r \<Rightarrow>
             (case unwrap_core wrapping_key a r of
                (a', r') \<Rightarrow>
                  if a' \<noteq> aiv then Inl (Exn InvalidUnwrap [] None)
                  else Inr (concat r'))))"

text \<open>
  What the loops keep: the register is 8 bytes and \<open>r\<close> is \<open>n\<close> blocks of 8 bytes.
\<close>

definition wrap_state :: "nat \<Rightarrow> bytes \<times> bytes list \<Rightarrow> bool" where
  "wrap_state n ar =
     (case ar of (a, r) \<Rightarrow> length a = 8 \<and> length r = n \<and> list_all (\<lambda>x. length x = 8) r)"

section \<open>Collaborators used as instances\<close>

text \<open>
  Modelled from the spec: \<open>COSEKey.from_symmetric_key\<close>, the key factory that
  \<open>decode_key\<close> calls, is not among the sources. The specification (6) gives it as
  \<open>fromSymmetricKey(bytes, alg, kid) -> typed key\<close>: the symmetric typed key with those
  raw bytes, that algorithm id and that key id. The specification does not say when it
  fails, so the theorems below take the factory as a parameter, and this one is the
  instance they are applied to.
\<close>

definition from_symmetric_key :: "bytes \<Rightarrow> int \<Rightarrow> bytes option \<Rightarrow> exn + cose_key" where
  "from_symmetric_key k a i =
     Inr \<lparr> kty = 4, alg = a, kid = i, key = k, key_ops = [],
           generate_nonce = Inl (Exn NotImplementedError [] None),
           to_dict = Inr (CMap [(CInt 1, CInt 4), (CInt 3, CInt a), (CInt (- 1), CBytes k)]) \<rparr>"

text \<open>
  The COSE engine, the key builder and the CBOR primitives are outside the sources and
  the specification only names their interfaces. To apply the theorems about
  \<open>EncryptedCOSEKey\<close> at a concrete object, \<open>plain_envelope\<close> holds stand-ins that
  do no cryptography: the engine puts the payload into the ciphertext slot as it is and
  reads it off again, \<open>_dumps\<close> and \<open>_loads\<close> pass a byte string through.
\<close>

definition plain_cose :: COSE where
  "plain_cose =
     \<lparr> cose_decode =
         (\<lambda>data k.
            case data of
              CBORTag t (CArray [p, u, CBytes c]) \<Rightarrow> Inr c
            | _ \<Rightarrow> Inl (Exn DecodeError ''Failed to decode.'' None)),
       encode_and_encrypt =
         (\<lambda>payload k protected unprotected nonce out.
            Inr (CBORTag 16 (CArray [CBytes [], CMap [], CBytes payload]))) \<rparr>"

definition plain_envelope :: EncryptedCOSEKey where
  "plain_envelope =
     \<lparr> self_options = None,
       self_cose = plain_cose,
       self_key_builder =
         \<lparr> from_dict =
             (\<lambda>d. case d of
                    CBytes b \<Rightarrow> from_symmetric_key b 5 None
                  | _ \<Rightarrow> Inl (Exn ValueError ''Unsupported key.'' None)) \<rparr>,
       loads = (\<lambda>b. Inr (CBytes b)),
       dumps =
         (\<lambda>d. case d of
                CBytes b \<Rightarrow> Inr b
              | _ \<Rightarrow> Inl (Exn EncodeError ''Failed to encode.'' None)) \<rparr>"

text \<open>Keys and a recipient structure the theorems are applied to.\<close>

definition kek :: bytes where
  "kek = [0x00, 0x01, 0x02, 0x03, 0x04, 0x05, 0x06, 0x07,
          0x08, 0x09, 0x0A, 0x0B, 0x0C, 0x0D, 0x0E, 0x0F]"

definition key_data :: bytes where
  "key_data = [0x00, 0x11, 0x22, 0x33, 0x44, 0x55, 0x66, 0x77,
               0x88, 0x99, 0xAA, 0xBB, 0xCC, 0xDD, 0xEE, 0xFF]"

definition symmetric_key :: "bytes \<Rightarrow> int \<Rightarrow> cose_key" where
  "symmetric_key k a =
     \<lparr> kty = 4, alg = a, kid = None, key = k, key_ops = [],
       generate_nonce = Inl (Exn NotImplementedError [] None),
       to_dict = Inr (CBytes k) \<rparr>"

definition recipient_of :: "int \<Rightarrow> bytes \<Rightarrow> bytes \<Rightarrow> recipient" where
  "recipient_of a secret ciphertext =
     \<lparr> self_protected = [1 \<mapsto> CInt a],
       self_unprotected = [4 \<mapsto> CBytes [0x30, 0x31]],
       self_ciphertext = ciphertext,
       self_recipients = [],
       self_key_ops = [],
       self_key = secret,
       self_alg = a,
       self_kid = Some [0x30, 0x31] \<rparr>"

section \<open>AES decryption inverts encryption\<close>

lemma sbox_table_inv:
  "map (\<lambda>b. inv_sbox_table ! unat b) sbox_table = map of_nat [0..<256]"
  by code_simp

lemma length_sbox_table: "length sbox_table = 256"
  by (simp add: sbox_table_def)

lemma inv_sbox_sbox: "inv_sbox (sbox b) = b"
proof -
  have n: "unat b < 256" using unsigned_less [of b] by simp
  have "map (\<lambda>b. inv_sbox_table ! unat b) sbox_table ! unat b = map of_nat [0..<256] ! unat b"
    by (simp only: sbox_table_inv)
  then have "inv_sbox_table ! unat (sbox_table ! unat b) = of_nat (unat b)"
    using n by (simp add: length_sbox_table del: upt_Suc)
  then show ?thesis by (simp add: sbox_def inv_sbox_def)
qed

lemma xtime_xor: "xtime (a XOR b) = xtime a XOR xtime b"
  by (simp add: xtime_def bit_xor_iff xor.assoc xor.commute xor.left_commute)

lemma xor_cancel3: "(x :: byte) XOR (y XOR x) = y"
  by (simp add: xor.commute [of y x] bit.xor_left_self)

lemma mix_column_inv:
  "mul14 (mul2 a XOR mul3 b XOR c XOR d) XOR mul11 (a XOR mul2 b XOR mul3 c XOR d)
     XOR mul13 (a XOR b XOR mul2 c XOR mul3 d) XOR mul9 (mul3 a XOR b XOR c XOR mul2 d) = a"
  "mul9 (mul2 a XOR mul3 b XOR c XOR d) XOR mul14 (a XOR mul2 b XOR mul3 c XOR d)
     XOR mul11 (a XOR b XOR mul2 c XOR mul3 d) XOR mul13 (mul3 a XOR b XOR c XOR mul2 d) = b"
  "mul13 (mul2 a XOR mul3 b XOR c XOR d) XOR mul9 (a XOR mul2 b XOR mul3 c XOR d)
     XOR mul14 (a XOR b XOR mul2 c XOR mul3 d) XOR mul11 (mul3 a XOR b XOR c XOR mul2 d) = c"
  "mul11 (mul2 a XOR mul3 b XOR c XOR d) XOR mul13 (a XOR mul2 b XOR mul3 c XOR d)
     XOR mul9 (a XOR b XOR mul2 c XOR mul3 d) XOR mul14 (mul3 a XOR b XOR c XOR mul2 d) = d"
  by (simp_all add: mul2_def mul3_def mul9_def mul11_def mul13_def mul14_def xtime_xor
      xor.assoc xor.commute xor.left_commute)

lemma inv_mix_columns_mix_columns:
  "length s mod 4 = 0 \<Longrightarrow> inv_mix_columns (mix_columns s) = s"
  by (induction s rule: mix_columns.induct) (simp_all add: mix_column_inv)

lemma length_mix_columns: "length s mod 4 = 0 \<Longrightarrow> length (mix_columns s) = length s"
  by (induction s rule: mix_columns.induct) simp_all

lemma length16:
  assumes "length (s :: 'a list) = 16"
  obtains a0 a1 a2 a3 a4 a5 a6 a7 a8 a9 a10 a11 a12 a13 a14 a15
  where "s = [a0, a1, a2, a3, a4, a5, a6, a7, a8, a9, a10, a11, a12, a13, a14, a15]"
proof -
  from assms obtain a0 a1 a2 a3 a4 a5 a6 a7 s8 where
    1: "s = a0 # a1 # a2 # a3 # a4 # a5 # a6 # a7 # s8" and 2: "length s8 = 8"
    by (auto simp: length_Suc_conv numeral_eq_Suc)
  from 2 obtain a8 a9 a10 a11 a12 a13 a14 a15 where
    "s8 = [a8, a9, a10, a11, a12, a13, a14, a15]"
    by (auto simp: length_Suc_conv numeral_eq_Suc)
  with 1 show ?thesis using that by blast
qed

lemma inv_shift_rows_shift_rows:
  assumes "length s = 16" shows "inv_shift_rows (shift_rows s) = s"
  using assms by (elim length16) (simp add: shift_rows_def inv_shift_rows_def)

lemma length_shift_rows: "length (shift_rows s) = 16"
  by (simp add: shift_rows_def)

lemma length_inv_shift_rows: "length (inv_shift_rows s) = 16"
  by (simp add: inv_shift_rows_def)

lemma inv_sub_bytes_sub_bytes: "inv_sub_bytes (sub_bytes s) = s"
  by (simp add: inv_sub_bytes_def sub_bytes_def inv_sbox_sbox comp_def)

lemma add_round_key_twice:
  "length rk = length s \<Longrightarrow> add_round_key rk (add_round_key rk s) = s"
proof (induction s arbitrary: rk)
  case Nil then show ?case by (simp add: add_round_key_def)
next
  case (Cons x s)
  then obtain y rk' where "rk = y # rk'" by (cases rk) auto
  with Cons show ?case by (simp add: add_round_key_def xor_cancel3 xor.assoc)
qed

lemma length_add_round_key: "length (add_round_key rk s) = min (length s) (length rk)"
  by (simp add: add_round_key_def)

lemma fold_inverse:
  assumes "\<And>x s. x \<in> set xs \<Longrightarrow> I s \<Longrightarrow> I (f x s) \<and> g x (f x s) = s" and "I s"
  shows "fold g (rev xs) (fold f xs s) = s"
  using assms
proof (induction xs arbitrary: s)
  case Nil
  then show ?case by simp
next
  case (Cons x xs)
  have "I (f x s)" and gf: "g x (f x s) = s" using Cons.prems by auto
  then have "fold g (rev xs) (fold f xs (f x s)) = f x s"
    using Cons.IH [of "f x s"] Cons.prems(1) by auto
  then show ?case by (simp add: gf)
qed

lemma fold_invariant:
  assumes "\<And>x s. x \<in> set xs \<Longrightarrow> I s \<Longrightarrow> I (f x s)" and "I s"
  shows "I (fold f xs s)"
  using assms by (induction xs arbitrary: s) auto

lemma length_rot_word: "length w = 4 \<Longrightarrow> length (rot_word w) = 4"
  by (cases w) (simp_all add: rot_word_def)

lemma length_expand_word:
  assumes "length w = 4 * i" and "0 < nk" and "nk \<le> i"
  shows "length (expand_word nk w i) = 4"
proof -
  have t: "length (take 4 (drop (4 * (i - 1)) w)) = 4" using assms by simp
  have u: "length (take 4 (drop (4 * (i - nk)) w)) = 4" using assms by simp
  show ?thesis
    unfolding expand_word_def Let_def
    using t u by (simp add: length_rot_word)
qed

lemma length_expand_fold:
  assumes "length w = 4 * a" and "0 < nk" and "nk \<le> a" and "a \<le> b"
  shows "length (fold (\<lambda>i w. w @ expand_word nk w i) [a ..< b] w) = 4 * b"
  using assms
proof (induction "b - a" arbitrary: a w)
  case 0
  then show ?case by simp
next
  case (Suc n)
  then have ab: "a < b" by simp
  have step: "length (w @ expand_word nk w a) = 4 * Suc a"
    using Suc.prems by (simp add: length_expand_word)
  have "length (fold (\<lambda>i w. w @ expand_word nk w i) [Suc a ..< b] (w @ expand_word nk w a)) = 4 * b"
    using Suc.hyps(1) [of "Suc a" "w @ expand_word nk w a"] Suc.hyps(2) Suc.prems ab step
    by simp
  then show ?case using ab by (simp add: upt_conv_Cons)
qed

lemma length_key_expansion:
  assumes "length k = 16 \<or> length k = 24 \<or> length k = 32"
  shows "length (key_expansion k) = 16 * (length k div 4 + 7)"
proof -
  let ?nk = "length k div 4"
  have "length k = 4 * ?nk" "0 < ?nk" using assms by auto
  then have "length (fold (\<lambda>i w. w @ expand_word ?nk w i) [?nk ..< 4 * (?nk + 7)] k) = 4 * (4 * (?nk + 7))"
    by (intro length_expand_fold) simp_all
  then show ?thesis by (simp add: key_expansion_def Let_def)
qed

lemma round_keys_length:
  assumes "length k = 16 \<or> length k = 24 \<or> length k = 32" and "rk \<in> set (round_keys k)"
  shows "length rk = 16"
proof -
  from assms(2) obtain r where r: "r < length k div 4 + 7"
    and rk: "rk = take 16 (drop (16 * r) (key_expansion k))"
    by (auto simp: round_keys_def Let_def)
  have "16 * r + 16 \<le> length (key_expansion k)"
    using r by (simp add: length_key_expansion [OF assms(1)])
  then show ?thesis by (simp add: rk)
qed

lemma round_keys_nonempty: "round_keys k \<noteq> []"
  by (simp add: round_keys_def Let_def)

lemma length_aes_round:
  "length rk = 16 \<Longrightarrow> length s = 16 \<Longrightarrow> length (aes_round rk s) = 16"
  by (simp add: aes_round_def length_add_round_key length_mix_columns length_shift_rows)

lemma inv_aes_round_aes_round:
  assumes "length rk = 16" and "length s = 16"
  shows "inv_aes_round rk (aes_round rk s) = s"
proof -
  have m: "length (mix_columns (shift_rows (sub_bytes s))) = 16"
    by (simp add: length_mix_columns length_shift_rows)
  have "length (sub_bytes s) = 16" using assms by (simp add: sub_bytes_def)
  then show ?thesis
    using assms m
    by (simp add: inv_aes_round_def aes_round_def add_round_key_twice
        inv_mix_columns_mix_columns length_shift_rows inv_shift_rows_shift_rows
        inv_sub_bytes_sub_bytes)
qed

lemma inv_cipher_cipher:
  assumes "\<And>rk. rk \<in> set rks \<Longrightarrow> length rk = 16" and "rks \<noteq> []" and "length b = 16"
  shows "inv_cipher rks (cipher rks b) = b"
proof -
  have h: "length (hd rks) = 16" and l: "length (last rks) = 16"
    using assms by simp_all
  have mid: "\<And>rk. rk \<in> set (butlast (tl rks)) \<Longrightarrow> length rk = 16"
  proof -
    fix rk assume "rk \<in> set (butlast (tl rks))"
    then have "rk \<in> set (tl rks)" by (rule in_set_butlastD)
    then have "rk \<in> set rks" using assms(2) by (cases rks) simp_all
    then show "length rk = 16" by (rule assms(1))
  qed
  let ?s0 = "add_round_key (hd rks) b"
  let ?s1 = "fold aes_round (butlast (tl rks)) ?s0"
  have s0: "length ?s0 = 16" using h assms(3) by (simp add: length_add_round_key)
  have s1: "length ?s1 = 16"
    by (rule fold_invariant [where I = "\<lambda>s. length s = 16"]) (simp_all add: mid length_aes_round s0)
  have unrolled: "fold inv_aes_round (rev (butlast (tl rks))) ?s1 = ?s0"
    by (rule fold_inverse [where I = "\<lambda>s. length s = 16"])
      (simp_all add: mid length_aes_round inv_aes_round_aes_round s0)
  have sb: "length (sub_bytes ?s1) = 16" using s1 by (simp add: sub_bytes_def)
  have "inv_sub_bytes (inv_shift_rows (add_round_key (last rks)
          (add_round_key (last rks) (shift_rows (sub_bytes ?s1))))) = ?s1"
    using l sb by (simp add: add_round_key_twice length_shift_rows inv_shift_rows_shift_rows
        inv_sub_bytes_sub_bytes)
  then show ?thesis
    using unrolled h assms(3) by (simp add: inv_cipher_def cipher_def add_round_key_twice)
qed

lemma length_cipher:
  assumes "\<And>rk. rk \<in> set rks \<Longrightarrow> length rk = 16" and "rks \<noteq> []"
  shows "length (cipher rks b) = 16"
  using assms by (simp add: cipher_def length_add_round_key length_shift_rows)

lemma aes_ecb_decrypt_encrypt:
  assumes "length k = 16 \<or> length k = 24 \<or> length k = 32" and "length b = 16"
  shows "aes_ecb_decrypt k (aes_ecb_encrypt k b) = b"
  unfolding aes_ecb_decrypt_def aes_ecb_encrypt_def
  by (rule inv_cipher_cipher) (simp_all add: round_keys_length [OF assms(1)] round_keys_nonempty assms(2))

lemma length_aes_ecb_encrypt:
  assumes "length k = 16 \<or> length k = 24 \<or> length k = 32"
  shows "length (aes_ecb_encrypt k b) = 16"
  unfolding aes_ecb_encrypt_def
  by (rule length_cipher) (simp_all add: round_keys_length [OF assms(1)] round_keys_nonempty)

section \<open>Unwrapping inverts wrapping\<close>

lemma unpack_Q_eight:
  "unpack_Q [a0, a1, a2, a3, a4, a5, a6, a7] =
     push_bit 56 (ucast a0) OR push_bit 48 (ucast a1) OR push_bit 40 (ucast a2) OR
     push_bit 32 (ucast a3) OR push_bit 24 (ucast a4) OR push_bit 16 (ucast a5) OR
     push_bit 8 (ucast a6) OR ucast a7"
  by (simp add: unpack_Q_def or.assoc)

lemma bit_byte_at:
  "m + 8 \<le> 64 \<Longrightarrow>
   bit (push_bit m (ucast (a :: byte)) :: 64 word) n \<longleftrightarrow> m \<le> n \<and> n < m + 8 \<and> bit a (n - m)"
  by (auto simp: bit_simps dest: bit_imp_le_length)

lemma bit_byte_at0:
  "bit (ucast (a :: byte) :: 64 word) n \<longleftrightarrow> n < 8 \<and> bit a n"
  by (auto simp: bit_simps dest: bit_imp_le_length)

lemma bit_byte_of:
  "bit (ucast (drop_bit m (w :: 64 word)) :: byte) k \<longleftrightarrow> k < 8 \<and> bit w (m + k)"
  by (auto simp: bit_simps dest: bit_imp_le_length)


lemma length8:
  assumes "length (s :: 'a list) = 8"
  obtains a0 a1 a2 a3 a4 a5 a6 a7 where "s = [a0, a1, a2, a3, a4, a5, a6, a7]"
  using assms by (auto simp: length_Suc_conv numeral_eq_Suc)

lemma bit_unpack_Q_eight:
  "bit (unpack_Q [a0, a1, a2, a3, a4, a5, a6, a7]) n \<longleftrightarrow>
      (56 \<le> n \<and> n < 64 \<and> bit a0 (n - 56)) \<or> (48 \<le> n \<and> n < 56 \<and> bit a1 (n - 48)) \<or>
      (40 \<le> n \<and> n < 48 \<and> bit a2 (n - 40)) \<or> (32 \<le> n \<and> n < 40 \<and> bit a3 (n - 32)) \<or>
      (24 \<le> n \<and> n < 32 \<and> bit a4 (n - 24)) \<or> (16 \<le> n \<and> n < 24 \<and> bit a5 (n - 16)) \<or>
      (8 \<le> n \<and> n < 16 \<and> bit a6 (n - 8)) \<or> (n < 8 \<and> bit a7 n)"
  by (simp add: unpack_Q_eight bit_or_iff bit_byte_at bit_byte_at0)


lemma byte_of_unpack:
  fixes x :: "64 word"
  assumes "\<And>n. n < 8 \<Longrightarrow> bit x (m + n) = bit a n"
  shows "(ucast (drop_bit m x) :: byte) = a"
  by (rule bit_word_eqI) (simp add: bit_byte_of assms)


lemma pack_Q_unpack_Q:
  assumes "length bs = 8" shows "pack_Q (unpack_Q bs) = bs"
proof -
  from assms obtain a0 a1 a2 a3 a4 a5 a6 a7 where bs: "bs = [a0, a1, a2, a3, a4, a5, a6, a7]"
    by (rule length8)
  let ?x = "unpack_Q [a0, a1, a2, a3, a4, a5, a6, a7]"
  note b = bit_unpack_Q_eight [of a0 a1 a2 a3 a4 a5 a6 a7]
  have "ucast (drop_bit 56 ?x) = a0" by (rule byte_of_unpack) (simp add: b)
  moreover have "ucast (drop_bit 48 ?x) = a1" by (rule byte_of_unpack) (simp add: b)
  moreover have "ucast (drop_bit 40 ?x) = a2" by (rule byte_of_unpack) (simp add: b)
  moreover have "ucast (drop_bit 32 ?x) = a3" by (rule byte_of_unpack) (simp add: b)
  moreover have "ucast (drop_bit 24 ?x) = a4" by (rule byte_of_unpack) (simp add: b)
  moreover have "ucast (drop_bit 16 ?x) = a5" by (rule byte_of_unpack) (simp add: b)
  moreover have "ucast (drop_bit 8 ?x) = a6" by (rule byte_of_unpack) (simp add: b)
  moreover have "ucast (drop_bit 0 ?x) = a7" by (rule byte_of_unpack) (simp add: b)
  ultimately show ?thesis by (simp add: bs pack_Q_def)
qed


lemma unpack_Q_pack_Q: "unpack_Q (pack_Q w) = w"
proof (rule bit_word_eqI)
  fix n assume "n < LENGTH(64)"
  then have n: "n < 64" by simp
  have p: "pack_Q w =
     [ucast (drop_bit 56 w), ucast (drop_bit 48 w), ucast (drop_bit 40 w), ucast (drop_bit 32 w),
      ucast (drop_bit 24 w), ucast (drop_bit 16 w), ucast (drop_bit 8 w), ucast (drop_bit 0 w)]"
    by (simp add: pack_Q_def)
  consider "n < 8" | "8 \<le> n" "n < 16" | "16 \<le> n" "n < 24" | "24 \<le> n" "n < 32"
    | "32 \<le> n" "n < 40" | "40 \<le> n" "n < 48" | "48 \<le> n" "n < 56" | "56 \<le> n" "n < 64"
    using n by linarith
  then show "bit (unpack_Q (pack_Q w)) n = bit w n"
    unfolding p bit_unpack_Q_eight bit_byte_of
    by cases (simp_all, linarith+)
qed

lemma length_pack_Q: "length (pack_Q w) = 8"
  by (simp add: pack_Q_def)

declare split8.simps [simp del]

lemma split8_Nil: "split8 [] = []"
  by (simp add: split8.simps [of "[]"])

lemma concat_split8: "concat (split8 bs) = bs"
proof (induction bs rule: split8.induct)
  case (1 bs)
  show ?case
  proof (cases "bs = []")
    case True
    then show ?thesis by (simp add: split8_Nil)
  next
    case False
    with 1 show ?thesis by (simp add: split8.simps [of bs])
  qed
qed

lemma split8_blocks:
  "length bs mod 8 = 0 \<Longrightarrow> x \<in> set (split8 bs) \<Longrightarrow> length x = 8"
proof (induction bs rule: split8.induct)
  case (1 bs)
  show ?case
  proof (cases "bs = []")
    case True
    with 1 show ?thesis by (simp add: split8_Nil)
  next
    case False
    have len: "8 \<le> length bs" using False "1.prems"(1) by (cases "length bs < 8") auto
    then have "length (drop 8 bs) mod 8 = 0" using "1.prems"(1) by (simp add: le_mod_geq)
    with 1 False len show ?thesis by (auto simp: split8.simps [of bs])
  qed
qed

lemma length_split8: "length bs mod 8 = 0 \<Longrightarrow> length (split8 bs) = length bs div 8"
proof (induction bs rule: split8.induct)
  case (1 bs)
  show ?case
  proof (cases "bs = []")
    case True
    then show ?thesis by (simp add: split8_Nil)
  next
    case False
    have len: "8 \<le> length bs" using False "1.prems"(1) by (cases "length bs < 8") auto
    then have "length (drop 8 bs) mod 8 = 0" using "1.prems"(1) by (simp add: le_mod_geq)
    with 1 False len show ?thesis by (simp add: split8.simps [of bs] le_div_geq)
  qed
qed

lemma split8_append: "length a = 8 \<Longrightarrow> split8 (a @ bs) = a # split8 bs"
  by (subst split8.simps) auto

lemma split8_concat: "(\<And>x. x \<in> set r \<Longrightarrow> length x = 8) \<Longrightarrow> split8 (concat r) = r"
  by (induction r) (simp_all add: split8_Nil split8_append)

lemma length_concat8: "(\<And>x. x \<in> set r \<Longrightarrow> length x = 8) \<Longrightarrow> length (concat r) = 8 * length r"
  by (induction r) simp_all

lemma wrap_step_state:
  assumes "length k = 16 \<or> length k = 24 \<or> length k = 32" and "i < n" and "wrap_state n (a, r)"
  shows "wrap_state n (wrap_step k n (j, i) (a, r))"
proof -
  have "length (aes_ecb_encrypt k (a @ r ! i)) = 16"
    by (rule length_aes_ecb_encrypt [OF assms(1)])
  then show ?thesis
    using assms(2,3)
    by (auto simp: wrap_state_def wrap_step_def Let_def length_pack_Q list_all_iff
        dest!: set_update_subset_insert [THEN subsetD])
qed

lemma unwrap_step_wrap_step:
  assumes "length k = 16 \<or> length k = 24 \<or> length k = 32" and "i < n" and "wrap_state n (a, r)"
  shows "unwrap_step k n (j, i) (wrap_step k n (j, i) (a, r)) = (a, r)"
proof -
  let ?b = "aes_ecb_encrypt k (a @ r ! i)"
  have a: "length a = 8" and ri: "length (r ! i) = 8" and i: "i < length r"
    using assms(2,3) by (auto simp: wrap_state_def list_all_iff)
  have lb: "length ?b = 16" by (rule length_aes_ecb_encrypt [OF assms(1)])
  have t: "\<And>t. pack_Q (unpack_Q (pack_Q (unpack_Q (take 8 ?b) XOR t)) XOR t) = take 8 ?b"
    using lb by (simp add: unpack_Q_pack_Q xor.assoc pack_Q_unpack_Q)
  have d: "aes_ecb_decrypt k ?b = a @ r ! i"
    by (rule aes_ecb_decrypt_encrypt [OF assms(1)]) (simp add: a ri)
  show ?thesis
    using i lb a ri
    by (simp add: unwrap_step_def wrap_step_def Let_def t d)
qed

lemma fold_wrap_step:
  assumes k: "length k = 16 \<or> length k = 24 \<or> length k = 32" and s: "wrap_state n (a, r)"
    and ps: "\<forall>x \<in> set ps. snd x < n"
  shows "fold (unwrap_step k n) (rev ps) (fold (wrap_step k n) ps (a, r)) = (a, r)"
    and "wrap_state n (fold (wrap_step k n) ps (a, r))"
proof -
  show "fold (unwrap_step k n) (rev ps) (fold (wrap_step k n) ps (a, r)) = (a, r)"
  proof (rule fold_inverse [where I = "wrap_state n"])
    fix x s assume x: "x \<in> set ps" and st: "wrap_state n s"
    obtain j i where xji: "x = (j, i)" by (cases x)
    obtain a' r' where sar: "s = (a', r')" by (cases s)
    have "i < n" using ps x xji by auto
    then show "wrap_state n (wrap_step k n x s) \<and> unwrap_step k n x (wrap_step k n x s) = s"
      using st unfolding xji sar
      by (simp add: wrap_step_state [OF k] unwrap_step_wrap_step [OF k])
  qed (rule s)
  show "wrap_state n (fold (wrap_step k n) ps (a, r))"
  proof (rule fold_invariant [where I = "wrap_state n"])
    fix x s assume x: "x \<in> set ps" and st: "wrap_state n s"
    obtain j i where xji: "x = (j, i)" by (cases x)
    obtain a' r' where sar: "s = (a', r')" by (cases s)
    have "i < n" using ps x xji by auto
    then show "wrap_state n (wrap_step k n x s)"
      using st unfolding xji sar by (simp add: wrap_step_state [OF k])
  qed (rule s)
qed

lemma aes_key_wrap_Inr:
  "aes_key_wrap k p = Inr c \<longleftrightarrow>
     (length k = 16 \<or> length k = 24 \<or> length k = 32) \<and> 16 \<le> length p \<and> length p mod 8 = 0
     \<and> c = wrap_core k aiv (split8 p)"
  by (auto simp: aes_key_wrap_def)

lemma aes_key_unwrap_wrap:
  assumes "aes_key_wrap k p = Inr c"
  shows "aes_key_unwrap k c = Inr p"
proof -
  from assms have k: "length k = 16 \<or> length k = 24 \<or> length k = 32"
    and p16: "16 \<le> length p" and p8: "length p mod 8 = 0"
    and c: "c = wrap_core k aiv (split8 p)"
    by (simp_all add: aes_key_wrap_Inr)
  let ?r = "split8 p"
  let ?n = "length ?r"
  let ?ps = "List.product [0 ..< 6] [0 ..< ?n]"
  obtain a' r' where f: "fold (wrap_step k ?n) ?ps (aiv, ?r) = (a', r')"
    by (cases "fold (wrap_step k ?n) ?ps (aiv, ?r)")
  have s0: "wrap_state ?n (aiv, ?r)"
    using split8_blocks [OF p8] by (simp add: wrap_state_def aiv_def list_all_iff)
  have ps: "\<forall>x \<in> set ?ps. snd x < ?n" by auto
  have inv: "fold (unwrap_step k ?n) (rev ?ps) (a', r') = (aiv, ?r)"
    using fold_wrap_step(1) [OF k s0 ps] by (simp add: f)
  have s1: "wrap_state ?n (a', r')"
    using fold_wrap_step(2) [OF k s0 ps] by (simp add: f)
  then have la: "length a' = 8" and lr: "length r' = ?n"
    and blocks: "\<And>x. x \<in> set r' \<Longrightarrow> length x = 8"
    by (simp_all add: wrap_state_def list_all_iff)
  have cc: "c = a' @ concat r'" by (simp add: c wrap_core_def f)
  have n: "?n = length p div 8" by (rule length_split8 [OF p8])
  have lc: "length c = 8 + 8 * ?n" by (simp add: cc la length_concat8 [OF blocks] lr)
  have c24: "\<not> length c < 24" using lc n p16 by simp
  have c8: "length c mod 8 = 0" using lc by simp
  have sp: "split8 c = a' # r'"
    by (simp add: cc split8_append [OF la] split8_concat [OF blocks])
  have uc: "unwrap_core k a' r' = (aiv, ?r)"
    using inv by (simp add: unwrap_core_def lr)
  show ?thesis
    using k c24 c8 by (simp add: aes_key_unwrap_def sp uc concat_split8)
qed

section \<open>Construction of the key-wrap recipient\<close>

text \<open>
  C2, as amended. When the protected header carries the algorithm id \<open>a\<close>,
  construction raises \<open>ValueError\<close> (the specification's \<open>InvalidArgument\<close>)
  "Unknown alg(3) for AES key wrap: a." for every \<open>a\<close> outside -3, -4, -5; for a
  recognised id it raises "Invalid key length: n." exactly when the shared secret is not
  empty and its length n differs from the required 16, 24 or 32 bytes; in every other case
  it succeeds and the structure holds the arguments as given.
\<close>

theorem AESKeyWrap_init_checks:
  assumes "protected 1 = Some (CInt a)"
  shows "AESKeyWrap_init protected unprotected ciphertext recipients ops k =
     (if a \<noteq> - 3 \<and> a \<noteq> - 4 \<and> a \<noteq> - 5 then
        Inl (Exn ValueError (''Unknown alg(3) for AES key wrap: '' @ str_int a @ ''.'') None)
      else if k \<noteq> [] \<and> length k \<noteq> (if a = - 3 then 16 else if a = - 4 then 24 else 32) then
        Inl (Exn ValueError (''Invalid key length: '' @ str_nat (length k) @ ''.'') None)
      else
        Inr \<lparr> self_protected = protected,
              self_unprotected = unprotected,
              self_ciphertext = ciphertext,
              self_recipients = recipients,
              self_key_ops = ops,
              self_key = k,
              self_alg = a,
              self_kid = (case unprotected 4 of Some (CBytes b) \<Rightarrow> Some b | _ \<Rightarrow> None) \<rparr>)"
  using assms
  by (simp add: AESKeyWrap_init_def RecipientInterface_init_def invalid_key_length_def
      unknown_alg_def)

theorem AESKeyWrap_init_checks_witness:
  "AESKeyWrap_init [1 \<mapsto> CInt 7] Map.empty [] [] [] (replicate 16 0) =
     Inl (Exn ValueError ''Unknown alg(3) for AES key wrap: 7.'' None)
   \<and> AESKeyWrap_init [1 \<mapsto> CInt (- 4)] Map.empty [] [] [] (replicate 16 0) =
     Inl (Exn ValueError ''Invalid key length: 16.'' None)
   \<and> AESKeyWrap_init [1 \<mapsto> CInt (- 3)] [4 \<mapsto> CBytes [1, 2]] [] [] [] (replicate 16 0) =
     Inr \<lparr> self_protected = [1 \<mapsto> CInt (- 3)],
           self_unprotected = [4 \<mapsto> CBytes [1, 2]],
           self_ciphertext = [],
           self_recipients = [],
           self_key_ops = [],
           self_key = replicate 16 0,
           self_alg = - 3,
           self_kid = Some [1, 2] \<rparr>"
  using AESKeyWrap_init_checks [of "[1 \<mapsto> CInt 7]" 7 Map.empty "[]" "[]" "[]" "replicate 16 0"]
    AESKeyWrap_init_checks [of "[1 \<mapsto> CInt (- 4)]" "- 4" Map.empty "[]" "[]" "[]" "replicate 16 0"]
    AESKeyWrap_init_checks [of "[1 \<mapsto> CInt (- 3)]" "- 3" "[4 \<mapsto> CBytes [1, 2]]" "[]" "[]" "[]"
      "replicate 16 0"]
  by (simp add: str_int_def digit_def)

text \<open>
  C2 as stated fails on the empty shared secret: its length 0 differs from the 16 bytes
  that algorithm id -3 requires, and construction succeeds.
\<close>

theorem AESKeyWrap_init_mismatch_counterexample:
  "length ([] :: bytes) \<noteq> 16
   \<and> AESKeyWrap_init [1 \<mapsto> CInt (- 3)] Map.empty [] [] [] [] =
     Inr \<lparr> self_protected = [1 \<mapsto> CInt (- 3)],
           self_unprotected = Map.empty,
           self_ciphertext = [],
           self_recipients = [],
           self_key_ops = [],
           self_key = [],
           self_alg = - 3,
           self_kid = None \<rparr>"
  by (simp add: AESKeyWrap_init_def RecipientInterface_init_def)

text \<open>
  C10. For every algorithm id in -3, -4, -5, construction with the empty shared secret
  (the default) succeeds, and a length error is only ever raised for a non-empty key.
\<close>

theorem AESKeyWrap_init_empty_key:
  assumes "protected 1 = Some (CInt a)" and "a = - 3 \<or> a = - 4 \<or> a = - 5"
  shows "(\<exists>self. AESKeyWrap_init protected unprotected ciphertext recipients ops [] = Inr self
            \<and> self_alg self = a \<and> self_key self = [])
         \<and> (AESKeyWrap_init protected unprotected ciphertext recipients ops k =
               Inl (invalid_key_length k) \<longrightarrow> k \<noteq> [])"
  using assms
  by (auto simp: AESKeyWrap_init_def RecipientInterface_init_def)

theorem AESKeyWrap_init_empty_key_witness:
  "(\<exists>self. AESKeyWrap_init [1 \<mapsto> CInt (- 5)] Map.empty [] [] [] [] = Inr self
       \<and> self_alg self = - 5 \<and> self_key self = [])
   \<and> AESKeyWrap_init [1 \<mapsto> CInt (- 5)] Map.empty [] [] [] [7] = Inl (invalid_key_length [7])
   \<and> [7 :: byte] \<noteq> []"
proof -
  have "AESKeyWrap_init [1 \<mapsto> CInt (- 5)] Map.empty [] [] [] [7] = Inl (invalid_key_length [7])"
    by (simp add: AESKeyWrap_init_def RecipientInterface_init_def)
  then show ?thesis
    using AESKeyWrap_init_empty_key [of "[1 \<mapsto> CInt (- 5)]" "- 5" Map.empty "[]" "[]" "[]" "[7]"]
    by simp
qed

section \<open>Wrapping a key: \<open>encode_key\<close>\<close>

text \<open>
  C5, as amended. For every recipient structure and every non-null input key on which
  the key-wrap primitive succeeds, \<open>encode_key\<close> returns the input key itself and
  the structure differs from the one before the call in the ciphertext field only, which
  holds the wrap of the key's raw bytes under the stored shared secret. Whatever the
  outcome, no field but the ciphertext changes.
\<close>

theorem encode_key_frame:
  "(wrap (self_key self) (key k) = Inr c \<longrightarrow>
      encode_key wrap self (Some k) = (Inr k, self\<lparr>self_ciphertext := c\<rparr>))
   \<and> (\<exists>c'. snd (encode_key wrap self (Some k)) = self\<lparr>self_ciphertext := c'\<rparr>)"
proof -
  have "\<exists>c'. snd (encode_key wrap self (Some k)) = self\<lparr>self_ciphertext := c'\<rparr>"
  proof (cases "wrap (self_key self) (key k)")
    case (Inl err)
    then have "snd (encode_key wrap self (Some k)) = self\<lparr>self_ciphertext := self_ciphertext self\<rparr>"
      by (simp add: encode_key_def)
    then show ?thesis ..
  next
    case (Inr c'')
    then have "snd (encode_key wrap self (Some k)) = self\<lparr>self_ciphertext := c''\<rparr>"
      by (simp add: encode_key_def)
    then show ?thesis ..
  qed
  then show ?thesis by (simp add: encode_key_def)
qed

theorem encode_key_frame_witness:
  "aes_key_wrap (self_key (recipient_of (- 3) kek [])) (key (symmetric_key key_data 5)) =
     Inr (wrap_core kek aiv (split8 key_data))
   \<and> encode_key aes_key_wrap (recipient_of (- 3) kek []) (Some (symmetric_key key_data 5)) =
     (Inr (symmetric_key key_data 5),
      recipient_of (- 3) kek (wrap_core kek aiv (split8 key_data)))"
proof -
  have w: "aes_key_wrap (self_key (recipient_of (- 3) kek [])) (key (symmetric_key key_data 5)) =
     Inr (wrap_core kek aiv (split8 key_data))"
    by (simp add: aes_key_wrap_Inr recipient_of_def symmetric_key_def kek_def key_data_def)
  show ?thesis
    using w encode_key_frame [of aes_key_wrap "recipient_of (- 3) kek []" "symmetric_key key_data 5"
        "wrap_core kek aiv (split8 key_data)"]
    by (simp add: recipient_of_def)
qed

text \<open>
  C5 as stated fails where the primitive fails: a recipient constructed without shared
  secret (which construction accepts) cannot wrap, \<open>encode_key\<close> raises and returns
  no key.
\<close>

theorem encode_key_returns_counterexample:
  "AESKeyWrap_init [1 \<mapsto> CInt (- 3)] [4 \<mapsto> CBytes [0x30, 0x31]] [] [] [] [] =
     Inr (recipient_of (- 3) [] [])
   \<and> encode_key aes_key_wrap (recipient_of (- 3) [] []) (Some (symmetric_key key_data 5)) =
     (Inl (Exn EncodeError ''Failed to wrap key.''
        (Some (Exn ValueError ''The wrapping key must be a valid AES key length'' None))),
      recipient_of (- 3) [] [])"
  by (simp add: AESKeyWrap_init_def RecipientInterface_init_def recipient_of_def encode_key_def
      aes_key_wrap_def)

text \<open>
  C6. Whenever the key-wrap primitive fails with \<open>err\<close>, \<open>encode_key\<close> raises
  \<open>EncodeError\<close> "Failed to wrap key." with \<open>err\<close> as its cause and leaves the
  recipient structure, its ciphertext included, as it was. A null key raises
  \<open>ValueError\<close> "key should be set." whatever the primitive is, so before it runs.
\<close>

theorem encode_key_failure:
  "(wrap (self_key self) (key k) = Inl err \<longrightarrow>
      encode_key wrap self (Some k) =
        (Inl (Exn EncodeError ''Failed to wrap key.'' (Some err)), self))
   \<and> encode_key wrap self None = (Inl (Exn ValueError ''key should be set.'' None), self)"
  by (simp add: encode_key_def)

theorem encode_key_failure_witness:
  "aes_key_wrap (self_key (recipient_of (- 3) kek [0x01])) (key (symmetric_key [0x01, 0x02, 0x03] 5)) =
     Inl (Exn ValueError ''The key to wrap must be at least 16 bytes'' None)
   \<and> encode_key aes_key_wrap (recipient_of (- 3) kek [0x01]) (Some (symmetric_key [0x01, 0x02, 0x03] 5)) =
     (Inl (Exn EncodeError ''Failed to wrap key.''
        (Some (Exn ValueError ''The key to wrap must be at least 16 bytes'' None))),
      recipient_of (- 3) kek [0x01])
   \<and> self_ciphertext (recipient_of (- 3) kek [0x01]) = [0x01]
   \<and> encode_key aes_key_wrap (recipient_of (- 3) kek [0x01]) None =
     (Inl (Exn ValueError ''key should be set.'' None), recipient_of (- 3) kek [0x01])"
proof -
  have w: "aes_key_wrap (self_key (recipient_of (- 3) kek [0x01]))
      (key (symmetric_key [0x01, 0x02, 0x03] 5)) =
     Inl (Exn ValueError ''The key to wrap must be at least 16 bytes'' None)"
    by (simp add: aes_key_wrap_def recipient_of_def symmetric_key_def kek_def)
  show ?thesis
    using w encode_key_failure [of aes_key_wrap "recipient_of (- 3) kek [0x01]"
        "symmetric_key [0x01, 0x02, 0x03] 5"
        "Exn ValueError ''The key to wrap must be at least 16 bytes'' None"]
    by (simp add: recipient_of_def)
qed

section \<open>Unwrapping a key: \<open>decode_key\<close>\<close>

text \<open>
  C7, as amended. \<open>decode_key\<close> raises \<open>ValueError\<close> "alg should be set." if and
  only if \<open>alg\<close> is absent or zero. With any other \<open>alg\<close>, a failure \<open>err\<close> of
  the unwrap primitive, or of the key factory after it, is re-raised as
  \<open>DecodeError\<close> "Failed to decode key." with \<open>err\<close> as its cause.
\<close>

theorem decode_key_errors:
  "(decode_key unwrap factory self k a = Inl (Exn ValueError ''alg should be set.'' None)
      \<longleftrightarrow> a = None \<or> a = Some 0)
   \<and> (a = Some a' \<and> a' \<noteq> 0 \<and> unwrap (key k) (self_ciphertext self) = Inl err \<longrightarrow>
        decode_key unwrap factory self k a =
          Inl (Exn DecodeError ''Failed to decode key.'' (Some err)))
   \<and> (a = Some a' \<and> a' \<noteq> 0 \<and> unwrap (key k) (self_ciphertext self) = Inr u
        \<and> factory u a' (self_kid self) = Inl err \<longrightarrow>
        decode_key unwrap factory self k a =
          Inl (Exn DecodeError ''Failed to decode key.'' (Some err)))"
  by (auto simp: decode_key_def split: option.splits sum.splits)

theorem decode_key_errors_witness:
  "decode_key aes_key_unwrap from_symmetric_key (recipient_of (- 3) [] [0x01]) (symmetric_key kek 5) None =
     Inl (Exn ValueError ''alg should be set.'' None)
   \<and> decode_key aes_key_unwrap from_symmetric_key (recipient_of (- 3) [] [0x01]) (symmetric_key kek 5)
       (Some 5) =
     Inl (Exn DecodeError ''Failed to decode key.''
       (Some (Exn InvalidUnwrap ''Must be at least 24 bytes'' None)))
   \<and> decode_key aes_key_unwrap
       (\<lambda>b a i. Inl (Exn ValueError ''Unsupported or unknown alg(3).'' None))
       (recipient_of (- 3) [] (wrap_core kek aiv (split8 key_data))) (symmetric_key kek 5) (Some 99) =
     Inl (Exn DecodeError ''Failed to decode key.''
       (Some (Exn ValueError ''Unsupported or unknown alg(3).'' None)))"
proof -
  have u1: "aes_key_unwrap (key (symmetric_key kek 5)) (self_ciphertext (recipient_of (- 3) [] [0x01])) =
      Inl (Exn InvalidUnwrap ''Must be at least 24 bytes'' None)"
    by (simp add: aes_key_unwrap_def recipient_of_def)
  have "aes_key_wrap kek key_data = Inr (wrap_core kek aiv (split8 key_data))"
    by (simp add: aes_key_wrap_Inr kek_def key_data_def)
  then have u2: "aes_key_unwrap (key (symmetric_key kek 5))
      (self_ciphertext (recipient_of (- 3) [] (wrap_core kek aiv (split8 key_data)))) = Inr key_data"
    by (simp add: aes_key_unwrap_wrap recipient_of_def symmetric_key_def)
  show ?thesis
    using
      decode_key_errors [where unwrap = aes_key_unwrap and factory = from_symmetric_key
        and self = "recipient_of (- 3) [] [0x01]" and k = "symmetric_key kek 5" and a = None]
      decode_key_errors [where unwrap = aes_key_unwrap and factory = from_symmetric_key
        and self = "recipient_of (- 3) [] [0x01]" and k = "symmetric_key kek 5" and a = "Some 5"
        and a' = 5 and err = "Exn InvalidUnwrap ''Must be at least 24 bytes'' None"] u1
      decode_key_errors [where unwrap = aes_key_unwrap
        and factory = "\<lambda>b a i. Inl (Exn ValueError ''Unsupported or unknown alg(3).'' None)"
        and self = "recipient_of (- 3) [] (wrap_core kek aiv (split8 key_data))"
        and k = "symmetric_key kek 5" and a = "Some 99" and a' = 99 and u = key_data
        and err = "Exn ValueError ''Unsupported or unknown alg(3).'' None"] u2
    by simp
qed

text \<open>
  C7 as stated fails at \<open>alg = 0\<close>: the argument is given, and \<open>not alg\<close> holds, so
  the call raises "alg should be set.".
\<close>

theorem decode_key_alg_zero_counterexample:
  "Some (0 :: int) \<noteq> None
   \<and> decode_key aes_key_unwrap from_symmetric_key
       (recipient_of (- 3) [] (wrap_core kek aiv (split8 key_data))) (symmetric_key kek 5) (Some 0) =
     Inl (Exn ValueError ''alg should be set.'' None)"
  by (simp add: decode_key_def)

text \<open>
  C3, as amended. With a non-null, non-zero \<open>alg\<close>, \<open>decode_key\<close> unwraps the stored
  ciphertext under the raw bytes of the key argument; the shared secret stored in the
  recipient structure is not read. When the unwrap succeeds it returns what the key
  factory builds from the unwrapped bytes, \<open>alg\<close> and the structure's key id: with the
  factory of the specification, a key with that algorithm id, that key id and those bytes.
\<close>

theorem decode_key_result:
  assumes "a \<noteq> 0"
  shows "decode_key unwrap factory self k (Some a) =
      (case unwrap (key k) (self_ciphertext self) of
         Inl err \<Rightarrow> Inl (Exn DecodeError ''Failed to decode key.'' (Some err))
       | Inr unwrapped \<Rightarrow>
           (case factory unwrapped a (self_kid self) of
              Inl err \<Rightarrow> Inl (Exn DecodeError ''Failed to decode key.'' (Some err))
            | Inr r \<Rightarrow> Inr r))
    \<and> decode_key unwrap factory (self\<lparr>self_key := s\<rparr>) k (Some a) =
        decode_key unwrap factory self k (Some a)
    \<and> (unwrap (key k) (self_ciphertext self) = Inr u \<longrightarrow>
         (\<exists>r. decode_key unwrap from_symmetric_key self k (Some a) = Inr r
            \<and> alg r = a \<and> kid r = self_kid self \<and> key r = u))"
  using assms by (auto simp: decode_key_def from_symmetric_key_def split: sum.splits)

theorem decode_key_result_witness:
  "(1 :: int) \<noteq> 0
   \<and> aes_key_unwrap (key (symmetric_key kek 5))
       (self_ciphertext (recipient_of (- 3) [] (wrap_core kek aiv (split8 key_data)))) = Inr key_data
   \<and> (\<exists>r. decode_key aes_key_unwrap from_symmetric_key
          (recipient_of (- 3) [] (wrap_core kek aiv (split8 key_data))) (symmetric_key kek 5) (Some 1) = Inr r
        \<and> alg r = 1 \<and> kid r = Some [0x30, 0x31] \<and> key r = key_data)"
proof -
  have "aes_key_wrap kek key_data = Inr (wrap_core kek aiv (split8 key_data))"
    by (simp add: aes_key_wrap_Inr kek_def key_data_def)
  then have u: "aes_key_unwrap (key (symmetric_key kek 5))
      (self_ciphertext (recipient_of (- 3) [] (wrap_core kek aiv (split8 key_data)))) = Inr key_data"
    by (simp add: aes_key_unwrap_wrap recipient_of_def symmetric_key_def)
  show ?thesis
    using u decode_key_result [where a = 1 and unwrap = aes_key_unwrap
        and self = "recipient_of (- 3) [] (wrap_core kek aiv (split8 key_data))"
        and k = "symmetric_key kek 5" and u = key_data]
    by (simp add: recipient_of_def from_symmetric_key_def)
qed

text \<open>
  C3 as stated fails. A recipient built from received material holds the ciphertext and
  no shared secret: unwrapping under the stored secret is impossible, and \<open>decode_key\<close>
  returns the key, unwrapped under the key argument. Conversely, a recipient that stores
  the right secret cannot decode when the key argument carries no key bytes.
\<close>

theorem decode_key_stored_secret_counterexample:
  "AESKeyWrap_init [1 \<mapsto> CInt (- 3)] [4 \<mapsto> CBytes [0x30, 0x31]]
       (wrap_core kek aiv (split8 key_data)) [] [] [] =
     Inr (recipient_of (- 3) [] (wrap_core kek aiv (split8 key_data)))
   \<and> aes_key_unwrap (self_key (recipient_of (- 3) [] (wrap_core kek aiv (split8 key_data))))
       (self_ciphertext (recipient_of (- 3) [] (wrap_core kek aiv (split8 key_data)))) =
     Inl (Exn ValueError ''The wrapping key must be a valid AES key length'' None)
   \<and> decode_key aes_key_unwrap from_symmetric_key
       (recipient_of (- 3) [] (wrap_core kek aiv (split8 key_data))) (symmetric_key kek 5) (Some 1) =
     from_symmetric_key key_data 1 (Some [0x30, 0x31])
   \<and> aes_key_unwrap (self_key (recipient_of (- 3) kek (wrap_core kek aiv (split8 key_data))))
       (self_ciphertext (recipient_of (- 3) kek (wrap_core kek aiv (split8 key_data)))) =
     Inr key_data
   \<and> decode_key aes_key_unwrap from_symmetric_key
       (recipient_of (- 3) kek (wrap_core kek aiv (split8 key_data))) (symmetric_key [] 5) (Some 1) =
     Inl (Exn DecodeError ''Failed to decode key.''
       (Some (Exn ValueError ''The wrapping key must be a valid AES key length'' None)))"
proof -
  have w: "aes_key_wrap kek key_data = Inr (wrap_core kek aiv (split8 key_data))"
    by (simp add: aes_key_wrap_Inr kek_def key_data_def)
  have u: "aes_key_unwrap kek (wrap_core kek aiv (split8 key_data)) = Inr key_data"
    using w by (rule aes_key_unwrap_wrap)
  have c: "aes_key_unwrap kek (wrap_core kek aiv (split8 key_data)) = Inr key_data \<Longrightarrow>
      \<not> length (wrap_core kek aiv (split8 key_data)) < 24
      \<and> length (wrap_core kek aiv (split8 key_data)) mod 8 = 0"
    by (auto simp: aes_key_unwrap_def split: if_splits)
  have l: "\<not> length (wrap_core kek aiv (split8 key_data)) < 24"
    and m: "length (wrap_core kek aiv (split8 key_data)) mod 8 = 0"
    using c [OF u] by simp_all
  have e: "aes_key_unwrap [] (wrap_core kek aiv (split8 key_data)) =
      Inl (Exn ValueError ''The wrapping key must be a valid AES key length'' None)"
    using l m by (simp add: aes_key_unwrap_def)
  show ?thesis
    using u e
    by (simp add: AESKeyWrap_init_def RecipientInterface_init_def recipient_of_def decode_key_def
        symmetric_key_def from_symmetric_key_def)
qed

section \<open>Round trip\<close>

text \<open>
  C1, as amended. For a recipient constructed with algorithm id -3, -4 or -5 and a shared
  secret of the matching length (16, 24 or 32 bytes), and an input key whose raw bytes
  are a valid wrap input (at least 16 bytes, a multiple of 8), \<open>encode_key\<close> followed
  by \<open>decode_key\<close> with the shared secret as the key argument and any non-zero
  algorithm id hands exactly the input key's raw bytes to the key factory and returns
  what it builds: with the factory of the specification, a key whose raw bytes equal the
  input key's.
\<close>

theorem encode_key_decode_key_roundtrip:
  assumes "protected 1 = Some (CInt a)"
    and "(a = - 3 \<and> length secret = 16) \<or> (a = - 4 \<and> length secret = 24)
         \<or> (a = - 5 \<and> length secret = 32)"
    and "16 \<le> length (key k)" and "length (key k) mod 8 = 0"
    and "key shared = secret"
    and "a' \<noteq> 0"
  shows "\<exists>self c.
      AESKeyWrap_init protected unprotected ciphertext recipients ops secret = Inr self
    \<and> encode_key aes_key_wrap self (Some k) = (Inr k, self\<lparr>self_ciphertext := c\<rparr>)
    \<and> decode_key aes_key_unwrap factory (self\<lparr>self_ciphertext := c\<rparr>) shared (Some a') =
        (case factory (key k) a' (self_kid self) of
           Inl err \<Rightarrow> Inl (Exn DecodeError ''Failed to decode key.'' (Some err))
         | Inr r \<Rightarrow> Inr r)
    \<and> (\<exists>r. decode_key aes_key_unwrap from_symmetric_key (self\<lparr>self_ciphertext := c\<rparr>)
              shared (Some a') = Inr r
          \<and> key r = key k)"
proof -
  let ?self = "\<lparr> self_protected = protected, self_unprotected = unprotected,
      self_ciphertext = ciphertext, self_recipients = recipients, self_key_ops = ops,
      self_key = secret, self_alg = a,
      self_kid = (case unprotected 4 of Some (CBytes b) \<Rightarrow> Some b | _ \<Rightarrow> None) \<rparr>"
  let ?c = "wrap_core secret aiv (split8 (key k))"
  have init: "AESKeyWrap_init protected unprotected ciphertext recipients ops secret = Inr ?self"
    using assms(1,2) by (auto simp: AESKeyWrap_init_def RecipientInterface_init_def)
  have len: "length secret = 16 \<or> length secret = 24 \<or> length secret = 32"
    using assms(2) by auto
  have w: "aes_key_wrap secret (key k) = Inr ?c"
    using len assms(3,4) by (simp add: aes_key_wrap_Inr)
  have u: "aes_key_unwrap secret ?c = Inr (key k)"
    using w by (rule aes_key_unwrap_wrap)
  have enc: "encode_key aes_key_wrap ?self (Some k) = (Inr k, ?self\<lparr>self_ciphertext := ?c\<rparr>)"
    using w by (simp add: encode_key_def)
  have dec: "\<And>f. decode_key aes_key_unwrap f (?self\<lparr>self_ciphertext := ?c\<rparr>) shared (Some a') =
        (case f (key k) a' (self_kid ?self) of
           Inl err \<Rightarrow> Inl (Exn DecodeError ''Failed to decode key.'' (Some err))
         | Inr r \<Rightarrow> Inr r)"
    using u assms(5,6) by (simp add: decode_key_def)
  have "\<exists>r. decode_key aes_key_unwrap from_symmetric_key (?self\<lparr>self_ciphertext := ?c\<rparr>)
              shared (Some a') = Inr r \<and> key r = key k"
    unfolding dec by (simp add: from_symmetric_key_def)
  with init enc dec [of factory] show ?thesis by blast
qed

theorem encode_key_decode_key_roundtrip_witness:
  "\<exists>self c.
      AESKeyWrap_init [1 \<mapsto> CInt (- 3)] [4 \<mapsto> CBytes [0x30, 0x31]] [] [] [] kek = Inr self
    \<and> encode_key aes_key_wrap self (Some (symmetric_key key_data 5)) =
        (Inr (symmetric_key key_data 5), self\<lparr>self_ciphertext := c\<rparr>)
    \<and> (\<exists>r. decode_key aes_key_unwrap from_symmetric_key (self\<lparr>self_ciphertext := c\<rparr>)
              (symmetric_key kek (- 3)) (Some 5) = Inr r
          \<and> key r = key_data)"
proof -
  have "[1 \<mapsto> CInt (- 3)] (1 :: int) = Some (CInt (- 3))" by simp
  moreover have "length kek = 16" by (simp add: kek_def)
  moreover have "16 \<le> length (key (symmetric_key key_data 5))"
    and "length (key (symmetric_key key_data 5)) mod 8 = 0"
    by (simp_all add: symmetric_key_def key_data_def)
  moreover have "key (symmetric_key kek (- 3)) = kek" by (simp add: symmetric_key_def)
  moreover have "(5 :: int) \<noteq> 0" by simp
  ultimately show ?thesis
    using encode_key_decode_key_roundtrip [where protected = "[1 \<mapsto> CInt (- 3)]" and a = "- 3"
        and secret = kek and k = "symmetric_key key_data 5" and shared = "symmetric_key kek (- 3)"
        and a' = 5 and unprotected = "[4 \<mapsto> CBytes [0x30, 0x31]]" and ciphertext = "[]"
        and recipients = "[]" and ops = "[]" and factory = from_symmetric_key]
    by (simp add: symmetric_key_def) blast
qed

text \<open>
  C1 as stated fails at algorithm id 0: construction and \<open>encode_key\<close> succeed, and
  \<open>decode_key\<close> with the shared secret raises "alg should be set." instead of
  returning a key.
\<close>

theorem roundtrip_alg_zero_counterexample:
  "AESKeyWrap_init [1 \<mapsto> CInt (- 3)] [4 \<mapsto> CBytes [0x30, 0x31]] [] [] [] kek =
     Inr (recipient_of (- 3) kek [])
   \<and> length kek = 16
   \<and> encode_key aes_key_wrap (recipient_of (- 3) kek []) (Some (symmetric_key key_data 5)) =
     (Inr (symmetric_key key_data 5), recipient_of (- 3) kek (wrap_core kek aiv (split8 key_data)))
   \<and> key (symmetric_key kek (- 3)) = kek
   \<and> decode_key aes_key_unwrap from_symmetric_key
       (recipient_of (- 3) kek (wrap_core kek aiv (split8 key_data))) (symmetric_key kek (- 3)) (Some 0) =
     Inl (Exn ValueError ''alg should be set.'' None)"
proof -
  have w: "aes_key_wrap kek key_data = Inr (wrap_core kek aiv (split8 key_data))"
    by (simp add: aes_key_wrap_Inr kek_def key_data_def)
  have k: "length kek = 16" by (simp add: kek_def)
  show ?thesis
    using w k
    by (simp add: AESKeyWrap_init_def RecipientInterface_init_def recipient_of_def encode_key_def
        decode_key_def symmetric_key_def)
qed

section \<open>The encrypted key envelope\<close>

text \<open>
  C9. \<open>decode\<close> hands the envelope, wrapped in tag 16, and the encryption key to the
  engine. An exception of the engine propagates as it is, and so does one of the CBOR
  loader; otherwise the result is what the key builder makes of the attribute mapping
  loaded from the engine's plaintext.
\<close>

theorem decode_delegates:
  "(cose_decode (self_cose self) (CBORTag 16 (CArray k)) encryption_key = Inl e \<longrightarrow>
      decode self k encryption_key = Inl e)
   \<and> (cose_decode (self_cose self) (CBORTag 16 (CArray k)) encryption_key = Inr plaintext
        \<and> loads self plaintext = Inl e \<longrightarrow>
      decode self k encryption_key = Inl e)
   \<and> (cose_decode (self_cose self) (CBORTag 16 (CArray k)) encryption_key = Inr plaintext
        \<and> loads self plaintext = Inr res \<longrightarrow>
      decode self k encryption_key = from_dict (self_key_builder self) res)"
  by (simp add: decode_def)

theorem decode_delegates_witness:
  "decode plain_envelope [CBytes [], CMap []] (symmetric_key kek 1) =
     Inl (Exn DecodeError ''Failed to decode.'' None)
   \<and> decode plain_envelope [CBytes [], CMap [], CBytes key_data] (symmetric_key kek 1) =
     from_symmetric_key key_data 5 None"
proof -
  have 1: "cose_decode (self_cose plain_envelope) (CBORTag 16 (CArray [CBytes [], CMap []]))
      (symmetric_key kek 1) = Inl (Exn DecodeError ''Failed to decode.'' None)"
    by (simp add: plain_envelope_def plain_cose_def)
  have 2: "cose_decode (self_cose plain_envelope)
      (CBORTag 16 (CArray [CBytes [], CMap [], CBytes key_data])) (symmetric_key kek 1) = Inr key_data"
    by (simp add: plain_envelope_def plain_cose_def)
  have 3: "loads plain_envelope key_data = Inr (CBytes key_data)"
    by (simp add: plain_envelope_def)
  have 4: "from_dict (self_key_builder plain_envelope) (CBytes key_data) =
      from_symmetric_key key_data 5 None"
    by (simp add: plain_envelope_def)
  show ?thesis
    using 1 2 3 4
      decode_delegates [where self = plain_envelope and k = "[CBytes [], CMap []]"
        and encryption_key = "symmetric_key kek 1"
        and e = "Exn DecodeError ''Failed to decode.'' None"]
      decode_delegates [where self = plain_envelope and k = "[CBytes [], CMap [], CBytes key_data]"
        and encryption_key = "symmetric_key kek 1" and plaintext = key_data
        and res = "CBytes key_data"]
    by simp
qed

text \<open>
  C8. With an empty nonce, a key that cannot generate one makes \<open>encode\<close> fail with
  \<open>ValueError\<close> "Nonce generation is not supported for the key. Set a nonce
  explicitly.". In every successful call the engine has been given the protected header
  that maps label 1 to the encryption key's algorithm id and nothing else, and an
  unprotected header that holds, under label 5, the nonce used, which is the supplied one
  or, when that is empty, the one the key generated; its only other label can be 4.
\<close>

theorem encode_nonce_and_headers:
  "(nonce = [] \<and> generate_nonce encryption_key = Inl e \<and> exn_cls e = NotImplementedError \<longrightarrow>
      encode self k encryption_key nonce tagged =
        Inl (Exn ValueError
          ''Nonce generation is not supported for the key. Set a nonce explicitly.'' None))
   \<and> (encode self k encryption_key nonce tagged = Inr v \<longrightarrow>
        (\<exists>n b u t.
           (if nonce = [] then generate_nonce encryption_key = Inr n else n = nonce)
           \<and> u 5 = Some (CBytes n) \<and> dom u \<subseteq> {4, 5}
           \<and> encode_and_encrypt (self_cose self) b encryption_key
                [1 \<mapsto> CInt (alg encryption_key)] u n ''cbor2/CBORTag'' = Inr (CBORTag t v)))"
proof (intro conjI impI)
  assume "nonce = [] \<and> generate_nonce encryption_key = Inl e \<and> exn_cls e = NotImplementedError"
  then show "encode self k encryption_key nonce tagged =
      Inl (Exn ValueError
        ''Nonce generation is not supported for the key. Set a nonce explicitly.'' None)"
    by (simp add: encode_def no_nonce_generation_def)
next
  assume ok: "encode self k encryption_key nonce tagged = Inr v"
  let ?u0 = "case kid encryption_key of
               None \<Rightarrow> Map.empty
             | Some i \<Rightarrow> if i \<noteq> [] then [4 \<mapsto> CBytes i] else Map.empty"
  have d0: "dom ?u0 \<subseteq> {4}" by (simp split: option.splits)
  obtain n where n: "if nonce = [] then generate_nonce encryption_key = Inr n else n = nonce"
    using ok by (cases "nonce = []"; cases "generate_nonce encryption_key")
      (auto simp: encode_def Let_def split: if_splits)
  obtain d where d: "to_dict k = Inr d"
    using ok n by (cases "to_dict k") (auto simp: encode_def Let_def split: if_splits)
  obtain b where b: "dumps self d = Inr b"
    using ok n d by (cases "dumps self d") (auto simp: encode_def Let_def split: if_splits)
  obtain res where res: "encode_and_encrypt (self_cose self) b encryption_key
      [1 \<mapsto> CInt (alg encryption_key)] (?u0(5 \<mapsto> CBytes n)) n ''cbor2/CBORTag'' = Inr res"
    and tv: "tag_value res = Inr v"
    using ok n d b
    by (cases "encode_and_encrypt (self_cose self) b encryption_key
      [1 \<mapsto> CInt (alg encryption_key)] (?u0(5 \<mapsto> CBytes n)) n ''cbor2/CBORTag''")
      (auto simp: encode_def Let_def split: if_splits)
  obtain t where t: "res = CBORTag t v"
    using tv by (cases res) (auto simp: tag_value_def)
  have "(?u0(5 \<mapsto> CBytes n)) 5 = Some (CBytes n)" by simp
  moreover have "dom (?u0(5 \<mapsto> CBytes n)) \<subseteq> {4, 5}" using d0 by auto
  ultimately show "\<exists>n b u t.
           (if nonce = [] then generate_nonce encryption_key = Inr n else n = nonce)
           \<and> u 5 = Some (CBytes n) \<and> dom u \<subseteq> {4, 5}
           \<and> encode_and_encrypt (self_cose self) b encryption_key
                [1 \<mapsto> CInt (alg encryption_key)] u n ''cbor2/CBORTag'' = Inr (CBORTag t v)"
    using n res t by blast
qed

theorem encode_nonce_and_headers_witness:
  "encode plain_envelope (symmetric_key key_data 5) (symmetric_key kek 1) [] False =
     Inl (Exn ValueError
       ''Nonce generation is not supported for the key. Set a nonce explicitly.'' None)
   \<and> encode plain_envelope (symmetric_key key_data 5)
       ((symmetric_key kek 1)\<lparr>generate_nonce := Inr [0x0A, 0x0B]\<rparr>) [] False =
     Inr (CArray [CBytes [], CMap [], CBytes key_data])
   \<and> (\<exists>b u t.
         u 5 = Some (CBytes [0x0A, 0x0B]) \<and> dom u \<subseteq> {4, 5}
         \<and> encode_and_encrypt (self_cose plain_envelope) b
              ((symmetric_key kek 1)\<lparr>generate_nonce := Inr [0x0A, 0x0B]\<rparr>)
              [1 \<mapsto> CInt 1] u [0x0A, 0x0B] ''cbor2/CBORTag'' =
            Inr (CBORTag t (CArray [CBytes [], CMap [], CBytes key_data])))"
proof -
  have g: "generate_nonce (symmetric_key kek 1) = Inl (Exn NotImplementedError [] None)"
    by (simp add: symmetric_key_def)
  have ok: "encode plain_envelope (symmetric_key key_data 5)
       ((symmetric_key kek 1)\<lparr>generate_nonce := Inr [0x0A, 0x0B]\<rparr>) [] False =
     Inr (CArray [CBytes [], CMap [], CBytes key_data])"
    by (simp add: encode_def plain_envelope_def plain_cose_def symmetric_key_def tag_value_def)
  show ?thesis
    using g ok
      encode_nonce_and_headers [where nonce = "[]" and encryption_key = "symmetric_key kek 1"
        and e = "Exn NotImplementedError [] None" and self = plain_envelope
        and k = "symmetric_key key_data 5" and tagged = False]
      encode_nonce_and_headers [where nonce = "[]"
        and encryption_key = "(symmetric_key kek 1)\<lparr>generate_nonce := Inr [0x0A, 0x0B]\<rparr>"
        and self = plain_envelope and k = "symmetric_key key_data 5" and tagged = False
        and v = "CArray [CBytes [], CMap [], CBytes key_data]"]
    by (simp add: symmetric_key_def)
qed

text \<open>The argument \<open>tagged\<close> has no effect on the result.\<close>

lemma encode_ignores_tagged:
  "encode self k encryption_key nonce tagged = encode self k encryption_key nonce False"
  by (simp add: encode_def)

text \<open>
  C4. \<open>encode\<close> never reads \<open>tagged\<close>: the result with \<open>tagged\<close> set is the result
  without it. Where the engine returns the envelope under tag 16, the call with
  \<open>tagged = True\<close> returns the array inside the tag, not the tagged value.
\<close>

theorem encode_tagged_returns_array:
  "encode_and_encrypt (self_cose plain_envelope) key_data (symmetric_key kek 1)
       [1 \<mapsto> CInt 1] [5 \<mapsto> CBytes [0x0A, 0x0B]] [0x0A, 0x0B] ''cbor2/CBORTag'' =
     Inr (CBORTag 16 (CArray [CBytes [], CMap [], CBytes key_data]))
   \<and> encode plain_envelope (symmetric_key key_data 5) (symmetric_key kek 1) [0x0A, 0x0B] True =
     Inr (CArray [CBytes [], CMap [], CBytes key_data])
   \<and> encode plain_envelope (symmetric_key key_data 5) (symmetric_key kek 1) [0x0A, 0x0B] True =
     encode plain_envelope (symmetric_key key_data 5) (symmetric_key kek 1) [0x0A, 0x0B] False"
  by (simp add: encode_def plain_envelope_def plain_cose_def symmetric_key_def tag_value_def)

end
